theory Spec2Isabelle
  imports Main "HOL-Library.Sublist"
begin

section \<open>JavaScript strings\<close>

text \<open>
  A JavaScript string is a sequence of UTF-16 code units; \<open>length\<close>, \<open>substring\<close>,
  \<open>includes\<close> and \<open>startsWith\<close> count and compare code units. A code unit is modelled
  as its number, a string as the list of its code units.
\<close>

type_synonym str = "nat list"

definition js :: "string \<Rightarrow> str" where
  "js s = map of_char s"

text \<open>
  \<open>String.prototype.trim\<close> removes the code units of WhiteSpace and LineTerminator
  (ECMA-262) from both ends: TAB, LF, VT, FF, CR, SP, NBSP, U+1680, U+2000..U+200A,
  U+2028, U+2029, U+202F, U+205F, U+3000 and U+FEFF.
\<close>

definition isWhiteSpace :: "nat \<Rightarrow> bool" where
  "isWhiteSpace c \<longleftrightarrow>
     c \<in> set [9, 10, 11, 12, 13, 32, 160, 5760, 8232, 8233, 8239, 8287, 12288, 65279]
     \<or> (8192 \<le> c \<and> c \<le> 8202)"

definition trim :: "str \<Rightarrow> str" where
  "trim s = rev (dropWhile isWhiteSpace (rev (dropWhile isWhiteSpace s)))"

text \<open>
  \<open>String.prototype.toLowerCase\<close> maps the string through the Unicode case tables.
  The table given here is exact on U+0000..U+017F (Basic Latin, Latin-1, Latin
  Extended-A), on the Greek capitals U+0386..U+03AB and on the Cyrillic block up to
  U+045F; it holds the one mapping of these ranges that lengthens a string, U+0130
  (capital I with dot above) to U+0069 U+0307 (SpecialCasing.txt, unconditional).
  Code units of other cased scripts are left as they are, and the rule for a final
  sigma is not modelled. For that reason the merge below takes the lower-casing
  function as a parameter, and what is proved of it for every string is proved for
  every such function.
\<close>

definition lowerUnit :: "nat \<Rightarrow> str" where
  "lowerUnit c =
     (if 65 \<le> c \<and> c \<le> 90 then [c + 32]
      else if 192 \<le> c \<and> c \<le> 222 \<and> c \<noteq> 215 then [c + 32]
      else if c = 304 then [105, 775]
      else if c = 376 then [255]
      else if (256 \<le> c \<and> c \<le> 311 \<or> 330 \<le> c \<and> c \<le> 375) \<and> even c then [c + 1]
      else if (313 \<le> c \<and> c \<le> 328 \<or> 377 \<le> c \<and> c \<le> 382) \<and> odd c then [c + 1]
      else if c = 902 then [940]
      else if 904 \<le> c \<and> c \<le> 906 then [c + 37]
      else if c = 908 then [972]
      else if 910 \<le> c \<and> c \<le> 911 then [c + 63]
      else if 913 \<le> c \<and> c \<le> 929 \<or> 931 \<le> c \<and> c \<le> 939 then [c + 32]
      else if 1024 \<le> c \<and> c \<le> 1039 then [c + 80]
      else if 1040 \<le> c \<and> c \<le> 1071 then [c + 32]
      else [c])"

definition toLowerCase :: "str \<Rightarrow> str" where
  "toLowerCase s = concat (map lowerUnit s)"

text \<open>
  \<open>s.includes(sub)\<close>: \<open>sub\<close> occurs in \<open>s\<close> as a contiguous run. (The plain name is a
  keyword of Isabelle, hence the suffix.)
\<close>

fun includesStr :: "str \<Rightarrow> str \<Rightarrow> bool" where
  "includesStr [] sub = (sub = [])"
| "includesStr (x # xs) sub = (prefix sub (x # xs) \<or> includesStr xs sub)"

text \<open>\<open>s.startsWith(p)\<close>.\<close>

definition startsWith :: "str \<Rightarrow> str \<Rightarrow> bool" where
  "startsWith s p = prefix p s"

text \<open>
  \<open>s.substring(a)\<close> and \<open>s.substring(0, b)\<close> for non-negative \<open>a\<close>, \<open>b\<close>
  (indices beyond the end are clamped, as \<open>drop\<close> and \<open>take\<close> do).
\<close>

definition substringFrom :: "str \<Rightarrow> nat \<Rightarrow> str" where
  "substringFrom s a = drop a s"

definition substringTo :: "str \<Rightarrow> nat \<Rightarrow> str" where
  "substringTo s b = take b s"

text \<open>A string is falsy in a JavaScript condition exactly when it is null or empty.\<close>

definition truthy :: "str option \<Rightarrow> bool" where
  "truthy x = (case x of None \<Rightarrow> False | Some s \<Rightarrow> s \<noteq> [])"

section \<open>The transcript merge (websocket.js, onTranscript, lines 282 to 347)\<close>

text \<open>
  The merge is the body of the \<open>if (!pendingTranscript) ... else ...\<close> statement of
  \<open>onTranscript\<close>. Its inputs are the variable \<open>pendingTranscript\<close> (null or a string) and
  \<open>trimmedText\<close>; its result is the value of \<open>pendingTranscript\<close> after the statement.
  Lengths are taken of the strings as they are, containment of their lower-cased
  and trimmed forms, and an appended segment is trimmed again. \<open>lower\<close> stands for
  \<open>String.prototype.toLowerCase\<close>.
\<close>

definition mergeWith :: "(str \<Rightarrow> str) \<Rightarrow> str option \<Rightarrow> str \<Rightarrow> str" where
  "mergeWith lower pendingTranscript trimmedText =
    (case pendingTranscript of
       None \<Rightarrow> trimmedText
     | Some pending \<Rightarrow>
        if pending = [] then trimmedText
        else
          let existingLower = trim (lower pending);
              newLower = trim (lower trimmedText);
              newContainsExisting = includesStr newLower existingLower;
              existingContainsNew = includesStr existingLower newLower
          in
          if length trimmedText > length pending \<and> newContainsExisting then trimmedText
          else if length trimmedText > length pending then
            (if \<not> newContainsExisting \<and> \<not> existingContainsNew
             then trim (pending @ [32] @ trimmedText)
             else trimmedText)
          else if newContainsExisting \<and> length trimmedText \<ge> length pending then trimmedText
          else if existingContainsNew \<and> length pending > length trimmedText then pending
          else if length trimmedText = length pending \<and> trimmedText \<noteq> pending then
            (if newContainsExisting then trimmedText else pending)
          else if length trimmedText < length pending
                  \<and> \<not> newContainsExisting \<and> \<not> existingContainsNew then
            (let existingEnd = substringFrom existingLower (max 0 (length existingLower - 10));
                 newStart = substringTo newLower (min 10 (length newLower))
             in if \<not> includesStr existingEnd newStart \<and> \<not> includesStr newStart existingEnd
                then trim (pending @ [32] @ trimmedText)
                else pending)
          else pending)"

text \<open>The merge of the session: the one above, with the lower-casing of the table.\<close>

definition merge :: "str option \<Rightarrow> str \<Rightarrow> str" where
  "merge pendingTranscript trimmedText = mergeWith toLowerCase pendingTranscript trimmedText"

text \<open>
  The algorithm of the specification, section 4.1, written from its words alone.
  Every comparison is made on the trimmed strings and containment on their
  lower-cased forms; the results are the strings as given. For step 9 the last 10
  characters of the pending transcript and the first 10 of the incoming one are
  taken from the trimmed strings and compared without regard to case; they overlap
  when some end of the first, not empty, is a beginning of the second.
\<close>

definition spec_overlap :: "str \<Rightarrow> str \<Rightarrow> bool" where
  "spec_overlap a b \<longleftrightarrow>
     list_ex (\<lambda>k. drop (length a - k) a = take k b) [1 ..< Suc (min (length a) (length b))]"

definition spec_merge :: "(str \<Rightarrow> str) \<Rightarrow> str option \<Rightarrow> str \<Rightarrow> str" where
  "spec_merge lower pending incoming =
    (let pend = (case pending of None \<Rightarrow> [] | Some x \<Rightarrow> x);
         p = trim pend;
         t = trim incoming;
         newContainsOld = includesStr (lower t) (lower p);
         oldContainsNew = includesStr (lower p) (lower t)
     in
     if p = [] then incoming
     else if length t > length p \<and> newContainsOld then incoming
     else if length t > length p \<and> \<not> newContainsOld \<and> \<not> oldContainsNew
       then pend @ [32] @ incoming
     else if length t > length p then incoming
     else if newContainsOld \<and> length t \<ge> length p then incoming
     else if oldContainsNew \<and> length p > length t then pend
     else if length t = length p \<and> t \<noteq> p \<and> newContainsOld then incoming
     else if length t < length p \<and> \<not> newContainsOld \<and> \<not> oldContainsNew then
       (if \<not> spec_overlap (lower (drop (length p - 10) p)) (lower (take 10 t))
        then pend @ [32] @ incoming
        else pend)
     else pend)"

text \<open>
  The same ten steps with step 9 as the amended claim C3 words it: the two edges are
  the last 10 code units of the lower-cased pending transcript and the first 10 of
  the lower-cased incoming one, and the segments are appended unless one edge
  contains the other whole.
\<close>

definition edgeContained :: "str \<Rightarrow> str \<Rightarrow> bool" where
  "edgeContained a b \<longleftrightarrow> includesStr a b \<or> includesStr b a"

definition amended_merge :: "(str \<Rightarrow> str) \<Rightarrow> str option \<Rightarrow> str \<Rightarrow> str" where
  "amended_merge lower pending incoming =
    (let pend = (case pending of None \<Rightarrow> [] | Some x \<Rightarrow> x);
         p = trim pend;
         t = trim incoming;
         newContainsOld = includesStr (lower t) (lower p);
         oldContainsNew = includesStr (lower p) (lower t)
     in
     if p = [] then incoming
     else if length t > length p \<and> newContainsOld then incoming
     else if length t > length p \<and> \<not> newContainsOld \<and> \<not> oldContainsNew
       then pend @ [32] @ incoming
     else if length t > length p then incoming
     else if newContainsOld \<and> length t \<ge> length p then incoming
     else if oldContainsNew \<and> length p > length t then pend
     else if length t = length p \<and> t \<noteq> p \<and> newContainsOld then incoming
     else if length t < length p \<and> \<not> newContainsOld \<and> \<not> oldContainsNew then
       (if \<not> edgeContained (drop (length (lower p) - 10) (lower p)) (take 10 (lower t))
        then pend @ [32] @ incoming
        else pend)
     else pend)"

section \<open>The session (websocket.js, the closure of one connection)\<close>

text \<open>
  Every connection owns the variables declared at the top of the \<open>connection\<close> handler.
  They are the fields of the record \<open>session\<close>, under their own names. Three things the
  JavaScript runtime keeps are made explicit beside them: the timers that
  \<open>setInterval\<close> created (\<open>bufferTimers\<close>, and the flag \<open>silenceCheckInterval\<close>), the
  completion and synthesis streams that were started (\<open>llmStreams\<close>, \<open>ttsStreams\<close>; a
  handle is the index of its stream), and the frames handed to \<open>ws.send\<close> (\<open>sent\<close>).
  Logging is left out, and so are the persistence of a turn and the two variables
  that only it reads (\<open>browserSessionId\<close>, \<open>currentUserId\<close>); what remains of the
  persistence is the \<open>await\<close> on it, which is an event of its own below. Time stamps
  inside a payload are left out too.
\<close>

datatype ready_state = CONNECTING | OPEN | CLOSING | CLOSED

datatype status_state =
  Connected | Listening | Processing | Thinking | Speaking | Idle | Interrupted | Error

datatype error_code = Llm_error | Stt_error

datatype mode = Chat | Voice

datatype message =
    Status status_state "error_code option"
  | Transcript str bool
  | AgentText str bool
  | AgentAudio str
  | ConversationTurn mode str str

datatype role = User | Assistant

text \<open>
  A completion stream (services/openai.js, \<open>createOpenAIStream\<close>) with the callbacks it
  was given. \<open>origin\<close> tells which function built the callbacks, \<open>userText\<close> is the
  user text they close over, \<open>fullText\<close> the text accumulated by the loop, \<open>aborted\<close>
  whether \<open>controller.abort()\<close> was called, \<open>live\<close> whether a provider request stands
  behind the handle (it does not when no API key is configured). The phases:
  the loop over the chunks is running; \<open>onComplete\<close> waits for the turn to be saved;
  \<open>onError\<close> waits for the turn to be saved; nothing more will happen.
\<close>

datatype origin = ProcessUserMessage bool | FinalizeTranscript

datatype phase = Streaming | Completing | Failing | Settled

record llm_stream =
  origin :: origin
  userText :: str
  messages :: "(role \<times> str) list"
  fullText :: str
  aborted :: bool
  live :: bool
  phase :: phase

text \<open>A synthesis stream (services/tts.js, \<open>createTTSStream\<close>): one timeout of 10 ms.\<close>

record tts_stream =
  ttsText :: str
  cancelled :: bool
  fired :: bool

text \<open>
  The interval that the silence check starts when the threshold is reached, with the
  variables of its closure. \<open>armed\<close> is false once \<open>clearInterval\<close> was called on it.
\<close>

record buffer_timer =
  transcriptAtSilence :: str
  bufferElapsed :: nat
  lastTranscriptLength :: nat
  lastFinalTranscriptTime :: "int option"
  armed :: bool

record session =
  readyState :: ready_state
  apiKey :: bool
  currentLLMStream :: "nat option"
  currentTTSStream :: "nat option"
  deepgramStream :: bool
  conversationHistory :: "(role \<times> str) list"
  isRecording :: bool
  lastTranscriptTime :: "int option"
  lastAudioChunkTime :: "int option"
  silenceTimeout :: bool
  pendingTranscript :: "str option"
  lastFinalizedTranscript :: "str option"
  lastSentTranscript :: "str option"
  silenceCheckInterval :: bool
  llmCallPending :: bool
  receivedFinalTranscript :: bool
  bufferTimers :: "buffer_timer list"
  llmStreams :: "llm_stream list"
  ttsStreams :: "tts_stream list"
  sent :: "message list"

definition SILENCE_THRESHOLD_MS :: int where
  "SILENCE_THRESHOLD_MS = 5000"

definition FINAL_TRANSCRIPT_BUFFER_MS :: nat where
  "FINAL_TRANSCRIPT_BUFFER_MS = 1500"

definition WAIT_AFTER_FINAL_MS :: int where
  "WAIT_AFTER_FINAL_MS = 2000"

definition checkInterval :: nat where
  "checkInterval = 100"

text \<open>A time stamp is falsy when it is null or 0.\<close>

definition truthyTime :: "int option \<Rightarrow> bool" where
  "truthyTime x = (case x of None \<Rightarrow> False | Some t \<Rightarrow> t \<noteq> 0)"

definition mapAt :: "nat \<Rightarrow> ('a \<Rightarrow> 'a) \<Rightarrow> 'a list \<Rightarrow> 'a list" where
  "mapAt i f xs = (if i < length xs then xs[i := f (xs ! i)] else xs)"

text \<open>\<open>sendMessage\<close> (lines 52 to 56), the only caller of \<open>ws.send\<close>.\<close>

definition sendMessage :: "message \<Rightarrow> session \<Rightarrow> session" where
  "sendMessage m s = (if readyState s = OPEN then s\<lparr>sent := sent s @ [m]\<rparr> else s)"

subsection \<open>Streams\<close>

text \<open>
  \<open>cancel()\<close> of a completion handle aborts the controller of the request; the handle
  returned without an API key has an empty \<open>cancel\<close>. \<open>cancel()\<close> of a synthesis
  handle sets its flag.
\<close>

definition cancelLLM :: "nat \<Rightarrow> session \<Rightarrow> session" where
  "cancelLLM h s =
     s\<lparr>llmStreams := mapAt h (\<lambda>st. if live st then st\<lparr>aborted := True\<rparr> else st) (llmStreams s)\<rparr>"

definition cancelTTS :: "nat \<Rightarrow> session \<Rightarrow> session" where
  "cancelTTS h s = s\<lparr>ttsStreams := mapAt h (\<lambda>t. t\<lparr>cancelled := True\<rparr>) (ttsStreams s)\<rparr>"

text \<open>
  The block "Cancel any in-flight LLM/TTS streams" of \<open>processUserMessage\<close>
  (lines 142 to 150) and of \<open>finalizeTranscript\<close> (lines 738 to 746).
\<close>

definition cancelInFlight :: "session \<Rightarrow> session" where
  "cancelInFlight s =
     (let s1 = (case currentLLMStream s of
                  None \<Rightarrow> s
                | Some h \<Rightarrow> (cancelLLM h s)\<lparr>currentLLMStream := None\<rparr>)
      in case currentTTSStream s1 of
           None \<Rightarrow> s1
         | Some h \<Rightarrow> (cancelTTS h s1)\<lparr>currentTTSStream := None\<rparr>)"

text \<open>
  \<open>onToken\<close> of both callers (lines 156 to 160 and 759 to 762): the token is sent as
  it is. The text the callbacks accumulate beside it is never read.
\<close>

definition onToken :: "str \<Rightarrow> session \<Rightarrow> session" where
  "onToken token s = sendMessage (AgentText token False) s"

text \<open>
  One round of the loop \<open>for await (const chunk of stream)\<close> of \<open>createOpenAIStream\<close>,
  for a chunk whose text is \<open>delta\<close>. The loop itself does not look at the controller;
  it is the iterator of the provider's library that yields no further chunk once the
  controller was aborted: it ends (event \<open>LlmEnd\<close>) or throws (event \<open>LlmFail\<close>).
\<close>

definition llmChunk :: "nat \<Rightarrow> str \<Rightarrow> session \<Rightarrow> session" where
  "llmChunk h delta s =
     (if h < length (llmStreams s) \<and> phase (llmStreams s ! h) = Streaming
         \<and> \<not> aborted (llmStreams s ! h) then
        (if delta \<noteq> [] then
           onToken delta
             (s\<lparr>llmStreams := mapAt h (\<lambda>st. st\<lparr>fullText := fullText st @ delta\<rparr>) (llmStreams s)\<rparr>)
         else s)
      else s)"

text \<open>
  The loop has ended: \<open>onComplete(fullText)\<close> runs up to \<open>await saveConversationTurn\<close>
  (lines 161 to 172 and 763 to 768).
\<close>

definition llmEnd :: "nat \<Rightarrow> session \<Rightarrow> session" where
  "llmEnd h s =
     (if h < length (llmStreams s) \<and> phase (llmStreams s ! h) = Streaming then
        s\<lparr>conversationHistory :=
             conversationHistory s @ [(Assistant, fullText (llmStreams s ! h))],
          llmStreams := mapAt h (\<lambda>st. st\<lparr>phase := Completing\<rparr>) (llmStreams s)\<rparr>
      else s)"

text \<open>
  The request threw. An \<open>AbortError\<close> ends the stream silently; any other error
  runs \<open>onError\<close> up to \<open>await saveConversationTurn\<close>.
\<close>

definition llmFail :: "nat \<Rightarrow> bool \<Rightarrow> session \<Rightarrow> session" where
  "llmFail h abortError s =
     (if h < length (llmStreams s) \<and> phase (llmStreams s ! h) = Streaming then
        s\<lparr>llmStreams :=
             mapAt h (\<lambda>st. st\<lparr>phase := (if abortError then Settled else Failing)\<rparr>) (llmStreams s)\<rparr>
      else s)"

text \<open>\<open>createTTSStream\<close>: the new handle; its timeout fires later.\<close>

definition createTTSStream :: "str \<Rightarrow> session \<Rightarrow> session \<times> nat" where
  "createTTSStream t s =
     (s\<lparr>ttsStreams := ttsStreams s @ [\<lparr>ttsText = t, cancelled = False, fired = False\<rparr>]\<rparr>,
      length (ttsStreams s))"

text \<open>
  The rest of \<open>onComplete\<close> or of \<open>onError\<close>, after the turn was saved
  (lines 174 to 214 and 216 to 229; lines 770 to 802 and 804 to 812).
\<close>

definition saveDone :: "nat \<Rightarrow> session \<Rightarrow> session" where
  "saveDone h s =
     (if h < length (llmStreams s) then
        (let st = llmStreams s ! h;
             s0 = s\<lparr>llmStreams := mapAt h (\<lambda>st. st\<lparr>phase := Settled\<rparr>) (llmStreams s)\<rparr>
         in case phase st of
              Completing \<Rightarrow>
                (case origin st of
                   ProcessUserMessage isChatMode \<Rightarrow>
                     (let s1 = sendMessage
                                 (ConversationTurn (if isChatMode then Chat else Voice)
                                    (userText st) (fullText st)) s0;
                          s2 = (if isChatMode then sendMessage (Status Idle None) s1
                                else sendMessage (Status Idle None)
                                       (sendMessage (Status Speaking None) s1))
                      in s2\<lparr>currentLLMStream := None\<rparr>)
                 | FinalizeTranscript \<Rightarrow>
                     (let s1 = sendMessage (ConversationTurn Voice (userText st) (fullText st)) s0;
                          s2 = sendMessage (Status Speaking None) s1;
                          (s3, t) = createTTSStream (fullText st) s2
                      in s3\<lparr>currentTTSStream := Some t\<rparr>))
            | Failing \<Rightarrow>
                (let s1 = sendMessage (Status Error (Some Llm_error)) s0
                 in case origin st of
                      ProcessUserMessage isChatMode \<Rightarrow> s1\<lparr>currentLLMStream := None\<rparr>
                    | FinalizeTranscript \<Rightarrow> s1)
            | _ \<Rightarrow> s)
      else s)"

text \<open>
  The timeout of a synthesis stream: nothing when cancelled, else one audio chunk and
  \<open>onEnd\<close> (lines 794 to 801). The payload of the chunk, the base64 form of the
  UTF-8 bytes of \<open>AUDIO:\<close> followed by the text, is not modelled: the frame is
  recorded with the text it was made from.
\<close>

definition ttsTimeout :: "nat \<Rightarrow> session \<Rightarrow> session" where
  "ttsTimeout h s =
     (if h < length (ttsStreams s) \<and> \<not> fired (ttsStreams s ! h) then
        (let t = ttsStreams s ! h;
             s0 = s\<lparr>ttsStreams := mapAt h (\<lambda>t. t\<lparr>fired := True\<rparr>) (ttsStreams s)\<rparr>
         in if cancelled t then s0
            else (sendMessage (Status Idle None)
                    (sendMessage (AgentAudio (ttsText t)) s0))
                 \<lparr>currentTTSStream := None\<rparr>)
      else s)"

definition fakeText :: str where
  "fakeText = js ''LLM is not configured. Please set OPENAI_API_KEY.''"

text \<open>
  \<open>createOpenAIStream\<close>. With an API key the request is started and the handle
  returned. Without one, \<open>onToken\<close> and \<open>onComplete\<close> are called with a fixed text
  before the handle is returned.
\<close>

definition createOpenAIStream :: "origin \<Rightarrow> str \<Rightarrow> session \<Rightarrow> session \<times> nat" where
  "createOpenAIStream org userText0 s =
     (let h = length (llmStreams s);
          st = \<lparr>origin = org, userText = userText0, messages = conversationHistory s,
                fullText = [], aborted = False, live = apiKey s, phase = Streaming\<rparr>;
          s1 = s\<lparr>llmStreams := llmStreams s @ [st]\<rparr>
      in if apiKey s then (s1, h) else (llmEnd h (llmChunk h fakeText s1), h))"

subsection \<open>Submitting a user turn\<close>

text \<open>\<open>processUserMessage\<close> (lines 112 to 237).\<close>

definition processUserMessage :: "str \<Rightarrow> bool \<Rightarrow> session \<Rightarrow> session" where
  "processUserMessage userMessage isChatMode s =
     (if userMessage = [] \<or> trim userMessage = [] then s
      else
        let messageText = trim userMessage;
            s1 = s\<lparr>conversationHistory := conversationHistory s @ [(User, messageText)]\<rparr>;
            s2 = sendMessage (Status Thinking None) s1;
            s3 = sendMessage (AgentText [] True) s2;
            s4 = cancelInFlight s3;
            (s5, h) = createOpenAIStream (ProcessUserMessage isChatMode) messageText s4
        in s5\<lparr>currentLLMStream := Some h\<rparr>)"

text \<open>\<open>finalizeTranscript\<close> (lines 686 to 814).\<close>

definition finalizeTranscript :: "session \<Rightarrow> session" where
  "finalizeTranscript s =
     (case pendingTranscript s of
        None \<Rightarrow> s
      | Some pending \<Rightarrow>
          if pending = [] \<or> length (trim pending) = 0 then s
          else
            let finalText = trim pending in
            if lastFinalizedTranscript s = Some finalText then s
            else
              let s1 = s\<lparr>lastFinalizedTranscript := Some finalText\<rparr>;
                  s2 = sendMessage (Transcript finalText True) s1;
                  s3 = sendMessage (Status Processing None) s2;
                  s4 = s3\<lparr>conversationHistory := conversationHistory s3 @ [(User, finalText)]\<rparr>;
                  s5 = s4\<lparr>pendingTranscript := None\<rparr>;
                  s6 = cancelInFlight s5;
                  s7 = sendMessage (Status Thinking None) s6;
                  s8 = sendMessage (AgentText [] True) s7;
                  (s9, h) = createOpenAIStream FinalizeTranscript finalText s8
              in s9\<lparr>currentLLMStream := Some h\<rparr>)"

subsection \<open>Transcripts\<close>

text \<open>
  The second half of \<open>onTranscript\<close> (lines 349 to 429): the accumulated transcript is
  sent when it changed, and the flags of the endpointer follow. The test
  \<open>currentTranscript.length < previousLength * 0.5\<close> is written on integers.
\<close>

definition transcriptUpdate :: "bool \<Rightarrow> int \<Rightarrow> session \<Rightarrow> session" where
  "transcriptUpdate isFinal now s =
     (case pendingTranscript s of
        None \<Rightarrow> s
      | Some pending \<Rightarrow>
          let currentTranscript = trim pending in
          if currentTranscript \<noteq> [] \<and> lastSentTranscript s \<noteq> Some currentTranscript then
            let previousLength =
                  (case lastSentTranscript s of None \<Rightarrow> 0 | Some l \<Rightarrow> length l);
                containsPrevious =
                  (case lastSentTranscript s of
                     None \<Rightarrow> False
                   | Some l \<Rightarrow> l \<noteq> [] \<and>
                       includesStr (toLowerCase currentTranscript)
                         (substringTo (toLowerCase l) (min 20 (length l))));
                startsDifferently =
                  (case lastSentTranscript s of
                     None \<Rightarrow> False
                   | Some l \<Rightarrow> l \<noteq> [] \<and>
                       \<not> startsWith (toLowerCase currentTranscript)
                           (substringTo (toLowerCase l) (min 10 (length l))));
                isNewUtterance =
                  (\<not> truthy (lastSentTranscript s)
                   \<or> (2 * length currentTranscript < previousLength
                       \<and> \<not> containsPrevious \<and> startsDifferently));
                s1 = s\<lparr>lastSentTranscript := Some currentTranscript,
                       lastTranscriptTime := Some now\<rparr>;
                s2 = (if isNewUtterance then s1\<lparr>receivedFinalTranscript := False\<rparr>
                      else if isFinal then s1\<lparr>receivedFinalTranscript := True\<rparr>
                      else s1);
                s3 = (if llmCallPending s2 then
                        (if isNewUtterance
                         then s2\<lparr>llmCallPending := False, receivedFinalTranscript := False\<rparr>
                         else if isFinal then s2\<lparr>receivedFinalTranscript := True\<rparr>
                         else s2)
                      else s2)
            in sendMessage (Transcript currentTranscript False) s3
          else s)"

text \<open>\<open>onTranscript\<close> (lines 261 to 431).\<close>

definition onTranscript :: "str \<Rightarrow> bool \<Rightarrow> int \<Rightarrow> session \<Rightarrow> session" where
  "onTranscript text isFinal now s =
     (if text \<noteq> [] \<and> length (trim text) > 0 then
        let trimmedText = trim text;
            s1 = (if isFinal then s\<lparr>receivedFinalTranscript := True\<rparr> else s);
            s2 = s1\<lparr>pendingTranscript := Some (merge (pendingTranscript s1) trimmedText)\<rparr>
        in transcriptUpdate isFinal now s2
      else s)"

subsection \<open>The endpointer\<close>

text \<open>\<open>clearSilenceDetection\<close> (lines 439 to 450). Nothing ever sets \<open>silenceTimeout\<close>.\<close>

definition clearSilenceDetection :: "session \<Rightarrow> session" where
  "clearSilenceDetection s = s\<lparr>silenceTimeout := False, silenceCheckInterval := False\<rparr>"

text \<open>
  \<open>checkForFinalTranscript\<close> (lines 523 to 560), a closure over the transcript taken
  when the silence was detected.
\<close>

definition checkForFinalTranscript :: "str \<Rightarrow> session \<Rightarrow> session" where
  "checkForFinalTranscript atSilence s =
     (let transcriptToProcess =
            (case pendingTranscript s of
               None \<Rightarrow> atSilence
             | Some pending \<Rightarrow>
                 if pending \<noteq> [] \<and> length (trim pending) > 0 then trim pending
                 else atSilence)
      in if transcriptToProcess \<noteq> [] then
           (processUserMessage transcriptToProcess False s)
             \<lparr>pendingTranscript := None, lastSentTranscript := None,
              receivedFinalTranscript := False, llmCallPending := False\<rparr>
         else s\<lparr>llmCallPending := False, receivedFinalTranscript := False\<rparr>)"

text \<open>
  The callback of the interval started by \<open>startSilenceDetection\<close> (lines 460 to 662),
  run at the time \<open>now\<close>. When the threshold is reached it starts the buffer interval
  with the variables of lines 565 to 568.
\<close>

definition silenceCheck :: "int \<Rightarrow> session \<Rightarrow> session" where
  "silenceCheck now s =
     (case lastTranscriptTime s of
        None \<Rightarrow> s
      | Some t \<Rightarrow>
          if t = 0 then s
          else
            let timeSinceLastTranscript = now - t in
            case pendingTranscript s of
              None \<Rightarrow> s
            | Some pending \<Rightarrow>
                if timeSinceLastTranscript \<ge> SILENCE_THRESHOLD_MS \<and> \<not> llmCallPending s
                   \<and> pending \<noteq> [] \<and> length (trim pending) > 0
                then s\<lparr>llmCallPending := True,
                       bufferTimers := bufferTimers s @
                         [\<lparr>transcriptAtSilence = trim pending,
                           bufferElapsed = 0,
                           lastTranscriptLength = length pending,
                           lastFinalTranscriptTime =
                             (if receivedFinalTranscript s then Some now else None),
                           armed = True\<rparr>]\<rparr>
                else s)"

text \<open>
  The callback of the buffer interval (lines 578 to 656) of the timer \<open>i\<close>, run at the
  time \<open>now\<close>.
\<close>

definition bufferCheck :: "nat \<Rightarrow> int \<Rightarrow> session \<Rightarrow> session" where
  "bufferCheck i now s =
     (if i < length (bufferTimers s) \<and> armed (bufferTimers s ! i) then
        let b = bufferTimers s ! i;
            b1 = b\<lparr>bufferElapsed := bufferElapsed b + checkInterval\<rparr>;
            currentLength =
              (case pendingTranscript s of
                 None \<Rightarrow> length (transcriptAtSilence b1)
               | Some pending \<Rightarrow>
                   if pending \<noteq> [] then length pending else length (transcriptAtSilence b1));
            transcriptStillUpdating = (currentLength > lastTranscriptLength b1);
            b2 = (if receivedFinalTranscript s \<and> \<not> truthyTime (lastFinalTranscriptTime b1)
                  then b1\<lparr>lastFinalTranscriptTime := Some now\<rparr> else b1);
            keep = (\<lambda>b'. s\<lparr>bufferTimers := (bufferTimers s)[i := b']\<rparr>);
            finish = (\<lambda>b'. checkForFinalTranscript (transcriptAtSilence b')
                              (keep (b'\<lparr>armed := False\<rparr>)))
        in
        if transcriptStillUpdating then
          keep (b2\<lparr>lastTranscriptLength := currentLength, bufferElapsed := 0,
                    lastFinalTranscriptTime := None\<rparr>)
        else if receivedFinalTranscript s \<and> truthyTime (lastFinalTranscriptTime b2) then
          (case lastFinalTranscriptTime b2 of
             None \<Rightarrow> keep b2
           | Some tf \<Rightarrow>
               if now - tf \<ge> WAIT_AFTER_FINAL_MS then finish b2 else keep b2)
        else if bufferElapsed b2 \<ge> FINAL_TRANSCRIPT_BUFFER_MS \<and> \<not> transcriptStillUpdating
          then finish b2
        else if bufferElapsed b2 \<ge> 5000 then finish b2
        else keep b2
      else s)"

text \<open>\<open>startSilenceDetection\<close> (lines 452 to 669).\<close>

definition startSilenceDetection :: "session \<Rightarrow> session" where
  "startSilenceDetection s = (clearSilenceDetection s)\<lparr>silenceCheckInterval := True\<rparr>"

text \<open>\<open>resetSilenceTimer\<close> (lines 671 to 684).\<close>

definition resetSilenceTimer :: "int \<Rightarrow> session \<Rightarrow> session" where
  "resetSilenceTimer now s = s\<lparr>lastAudioChunkTime := Some now\<rparr>"

text \<open>\<open>startDeepgramStream\<close> (lines 239 to 437).\<close>

definition startDeepgramStream :: "session \<Rightarrow> session" where
  "startDeepgramStream s =
     (if deepgramStream s then s
      else
        let s1 = s\<lparr>lastAudioChunkTime := None, lastTranscriptTime := None,
                   pendingTranscript := None, lastFinalizedTranscript := None,
                   lastSentTranscript := None, llmCallPending := False,
                   receivedFinalTranscript := False\<rparr>;
            s2 = clearSilenceDetection s1;
            s3 = startSilenceDetection s2
        in s3\<lparr>deepgramStream := True\<rparr>)"

text \<open>\<open>stopDeepgramStream\<close> (lines 816 to 837).\<close>

definition stopDeepgramStream :: "session \<Rightarrow> session" where
  "stopDeepgramStream s =
     (let s1 = (case pendingTranscript s of
                  None \<Rightarrow> s
                | Some pending \<Rightarrow>
                    if pending \<noteq> [] \<and> length (trim pending) > 0
                    then finalizeTranscript s else s);
          s2 = clearSilenceDetection s1;
          s3 = s2\<lparr>deepgramStream := False\<rparr>
      in s3\<lparr>lastAudioChunkTime := None, lastTranscriptTime := None,
             pendingTranscript := None, lastFinalizedTranscript := None,
             lastSentTranscript := None\<rparr>)"

subsection \<open>Events\<close>

text \<open>
  Every callback that enters the session is an event: an inbound message after it was
  parsed (a message that does not parse, or whose type is unknown, changes nothing),
  a transcript or an error of the transcription stream, a tick of a timer with the
  clock at that moment, a chunk, the end or the failure of a completion stream, the
  return of the \<open>await\<close> inside \<open>onComplete\<close> or \<open>onError\<close>, the timeout of a
  synthesis stream, and the socket leaving the OPEN state. The callbacks of one
  session never overlap, so a run of the session is a list of events. Which events
  arrive, and when, is up to the client, the providers and the clock: a tick of a
  timer that was cleared and a chunk of a stream that has ended or was aborted change
  nothing, and nothing else is assumed.
\<close>

datatype event =
    StartRecording
  | StopRecording
  | AudioChunk bool int
  | Interrupt
  | ChatMessage "str option"
  | UnknownMessage
  | OnTranscript str bool int
  | OnSttError
  | SilenceCheck int
  | BufferCheck nat int
  | LlmChunk nat str
  | LlmEnd nat
  | LlmFail nat bool
  | SaveDone nat
  | TtsTimeout nat
  | SocketClosing
  | SocketClose

text \<open>The case \<open>interrupt\<close> of the message handler (lines 889 to 902).\<close>

definition onInterrupt :: "session \<Rightarrow> session" where
  "onInterrupt s =
     (let s1 = (case currentLLMStream s of None \<Rightarrow> s | Some h \<Rightarrow> cancelLLM h s);
          s2 = (case currentTTSStream s1 of None \<Rightarrow> s1 | Some h \<Rightarrow> cancelTTS h s1);
          s3 = s2\<lparr>currentLLMStream := None, currentTTSStream := None\<rparr>
      in sendMessage (Status Interrupted None) s3)"

text \<open>
  The handler of \<open>close\<close> (lines 922 to 941). The socket is CLOSED when it runs.
\<close>

definition onClose :: "session \<Rightarrow> session" where
  "onClose s =
     (let s0 = s\<lparr>readyState := CLOSED\<rparr>;
          s1 = clearSilenceDetection s0;
          s2 = s1\<lparr>lastTranscriptTime := None, lastAudioChunkTime := None\<rparr>;
          s3 = (case currentLLMStream s2 of None \<Rightarrow> s2 | Some h \<Rightarrow> cancelLLM h s2)
      in case currentTTSStream s3 of None \<Rightarrow> s3 | Some h \<Rightarrow> cancelTTS h s3)"

text \<open>
  One event. The cases of the message handler are lines 855 to 916; the first argument
  of \<open>AudioChunk\<close> tells whether the payload carries audio.
\<close>

fun step :: "event \<Rightarrow> session \<Rightarrow> session" where
  "step StartRecording s =
     sendMessage (Status Listening None) (startDeepgramStream (s\<lparr>isRecording := True\<rparr>))"
| "step StopRecording s =
     sendMessage (Status Idle None) (stopDeepgramStream (s\<lparr>isRecording := False\<rparr>))"
| "step (AudioChunk hasAudio now) s =
     (if \<not> hasAudio then s
      else if isRecording s \<and> deepgramStream s then resetSilenceTimer now s
      else s)"
| "step Interrupt s = onInterrupt s"
| "step (ChatMessage payloadText) s =
     (case payloadText of
        None \<Rightarrow> s
      | Some t \<Rightarrow> if t \<noteq> [] \<and> trim t \<noteq> [] then processUserMessage t True s else s)"
| "step UnknownMessage s = s"
| "step (OnTranscript t isFinal now) s = onTranscript t isFinal now s"
| "step OnSttError s = sendMessage (Status Error (Some Stt_error)) s"
| "step (SilenceCheck now) s = (if silenceCheckInterval s then silenceCheck now s else s)"
| "step (BufferCheck i now) s = bufferCheck i now s"
| "step (LlmChunk h delta) s = llmChunk h delta s"
| "step (LlmEnd h) s = llmEnd h s"
| "step (LlmFail h abortError) s = llmFail h abortError s"
| "step (SaveDone h) s = saveDone h s"
| "step (TtsTimeout h) s = ttsTimeout h s"
| "step SocketClosing s = (if readyState s = OPEN then s\<lparr>readyState := CLOSING\<rparr> else s)"
| "step SocketClose s = onClose s"

fun run :: "event list \<Rightarrow> session \<Rightarrow> session" where
  "run [] s = s"
| "run (e # es) s = run es (step e s)"

text \<open>
  The session of a new connection (lines 29 to 50 and 947); \<open>key\<close> tells whether
  \<open>OPENAI_API_KEY\<close> is set.
\<close>

definition init :: "bool \<Rightarrow> session" where
  "init key =
     sendMessage (Status Connected None)
       \<lparr>readyState = OPEN, apiKey = key, currentLLMStream = None, currentTTSStream = None,
        deepgramStream = False, conversationHistory = [], isRecording = False,
        lastTranscriptTime = None, lastAudioChunkTime = None, silenceTimeout = False,
        pendingTranscript = None, lastFinalizedTranscript = None, lastSentTranscript = None,
        silenceCheckInterval = False, llmCallPending = False,
        receivedFinalTranscript = False, bufferTimers = [], llmStreams = [],
        ttsStreams = [], sent = []\<rparr>"

text \<open>The completions that are streaming and were not cancelled.\<close>

definition activeCompletions :: "session \<Rightarrow> nat list" where
  "activeCompletions s =
     filter (\<lambda>h. phase (llmStreams s ! h) = Streaming \<and> \<not> aborted (llmStreams s ! h))
       [0 ..< length (llmStreams s)]"

subsection \<open>What a run has submitted\<close>

text \<open>The user texts of the completions started so far, oldest first.\<close>

definition submittedTexts :: "session \<Rightarrow> str list" where
  "submittedTexts s = map userText (llmStreams s)"

text \<open>A text that is not empty and has no white space at either end.\<close>

definition nonBlank :: "str \<Rightarrow> bool" where
  "nonBlank t \<longleftrightarrow> t \<noteq> [] \<and> trim t = t"

text \<open>From \<open>s\<close> to \<open>s'\<close> nothing was submitted, or one text that is not blank.\<close>

definition submitsNonBlank :: "session \<Rightarrow> session \<Rightarrow> bool" where
  "submitsNonBlank s s' \<longleftrightarrow>
     submittedTexts s' = submittedTexts s
     \<or> (submittedTexts s' = submittedTexts s @ [last (submittedTexts s')]
        \<and> nonBlank (last (submittedTexts s')))"

text \<open>
  The reply the system prompt of services/openai.js asks the model for once the
  caller has confirmed: the booking object and nothing else.
\<close>

definition bookingJson :: str where
  \<open>bookingJson = js ''{"action":"book_appointment","payload":{"name":"Asha Rao","age":30,"contact_number":"9970758021","medical_concern":"headache","appointment_datetime":"2025-12-24T16:00:00.000Z","email":null,"doctor_preference":null}}''\<close>

text \<open>
  The transcripts kept by the buffer intervals started so far (the closure variable
  \<open>transcriptAtSilence\<close> of each), oldest first.
\<close>

definition snapshots :: "session \<Rightarrow> str list" where
  "snapshots s = map transcriptAtSilence (bufferTimers s)"

text \<open>The pending transcript is null, or a string that is not blank.\<close>

definition pendingTrimmed :: "session \<Rightarrow> bool" where
  "pendingTrimmed s = (case pendingTranscript s of None \<Rightarrow> True | Some p \<Rightarrow> nonBlank p)"

text \<open>\<open>n\<close> ticks of the buffer interval \<open>i\<close>, 100 ms apart, the first one 100 ms after \<open>t\<close>.\<close>

fun bufferTicks :: "nat \<Rightarrow> int \<Rightarrow> nat \<Rightarrow> event list" where
  "bufferTicks i t 0 = []"
| "bufferTicks i t (Suc n) = BufferCheck i (t + 100) # bufferTicks i (t + 100) n"

section \<open>Facts about strings\<close>

text \<open>The definitions to unfold when a run is evaluated.\<close>

lemmas string_defs = js_def trim_def isWhiteSpace_def toLowerCase_def lowerUnit_def
  startsWith_def substringFrom_def substringTo_def truthy_def

lemmas session_defs = init_def sendMessage_def mapAt_def cancelLLM_def cancelTTS_def
  cancelInFlight_def onToken_def llmChunk_def llmEnd_def llmFail_def createTTSStream_def
  saveDone_def ttsTimeout_def createOpenAIStream_def processUserMessage_def
  finalizeTranscript_def transcriptUpdate_def onTranscript_def clearSilenceDetection_def
  checkForFinalTranscript_def silenceCheck_def bufferCheck_def startSilenceDetection_def
  resetSilenceTimer_def startDeepgramStream_def stopDeepgramStream_def onInterrupt_def
  onClose_def truthyTime_def SILENCE_THRESHOLD_MS_def FINAL_TRANSCRIPT_BUFFER_MS_def
  WAIT_AFTER_FINAL_MS_def checkInterval_def merge_def mergeWith_def

lemma includesStr_refl: "includesStr s s"
  by (cases s) simp_all

lemma includesStr_Nil: "includesStr s []"
  by (cases s) simp_all

lemma trim_Nil: "trim [] = []"
  by (simp add: trim_def)

lemma take_min_length: "take (min n (length l)) l = take n l"
  by (cases "n \<le> length l") (simp_all add: min_def)

lemma last_dropWhile: "dropWhile P xs \<noteq> [] \<Longrightarrow> last (dropWhile P xs) = last xs"
  by (induction xs) auto

text \<open>A string is its own trim exactly when neither end is white space.\<close>

lemma trimmed_iff:
  "trim s = s \<longleftrightarrow> s = [] \<or> (\<not> isWhiteSpace (hd s) \<and> \<not> isWhiteSpace (last s))"
proof (cases "s = []")
  case True
  then show ?thesis by (simp add: trim_def)
next
  case False
  show ?thesis
  proof
    assume t: "trim s = s"
    define d where "d = dropWhile isWhiteSpace s"
    have le1: "length (dropWhile isWhiteSpace (rev d)) \<le> length d"
      using length_dropWhile_le[of isWhiteSpace "rev d"] by simp
    have le2: "length d \<le> length s"
      unfolding d_def by (rule length_dropWhile_le)
    from t have "length (dropWhile isWhiteSpace (rev d)) = length s"
      unfolding trim_def d_def by (metis length_rev)
    with le1 le2 have "length d = length s" by simp
    then have ds: "d = s"
      unfolding d_def
      by (metis dropWhile_eq_drop length_drop diff_diff_cancel drop_0 le_refl
          length_takeWhile_le diff_is_0_eq')
    then have h: "\<not> isWhiteSpace (hd s)"
      using False unfolding d_def by (simp add: dropWhile_eq_self_iff)
    from t ds have "dropWhile isWhiteSpace (rev s) = rev s"
      unfolding trim_def d_def by (metis rev_rev_ident)
    then have "\<not> isWhiteSpace (hd (rev s))"
      using False by (simp add: dropWhile_eq_self_iff)
    then have "\<not> isWhiteSpace (last s)" using False by (simp add: hd_rev)
    with h show "s = [] \<or> (\<not> isWhiteSpace (hd s) \<and> \<not> isWhiteSpace (last s))" by simp
  next
    assume "s = [] \<or> (\<not> isWhiteSpace (hd s) \<and> \<not> isWhiteSpace (last s))"
    with False have h: "\<not> isWhiteSpace (hd s)" and l: "\<not> isWhiteSpace (last s)" by auto
    from h False have "dropWhile isWhiteSpace s = s" by (cases s) auto
    moreover from l False have "dropWhile isWhiteSpace (rev s) = rev s"
      by (cases "rev s") (auto simp: last_rev hd_rev)
    ultimately show "trim s = s" by (simp add: trim_def)
  qed
qed

lemma trim_idem: "trim (trim s) = trim s"
proof -
  define d where "d = dropWhile isWhiteSpace s"
  define e where "e = dropWhile isWhiteSpace (rev d)"
  have ts: "trim s = rev e" by (simp add: trim_def d_def e_def)
  show ?thesis
  proof (cases "e = []")
    case True
    with ts have "trim s = []" by simp
    then show ?thesis by (simp add: trim_Nil)
  next
    case False
    then have he: "\<not> isWhiteSpace (hd e)" unfolding e_def by (metis hd_dropWhile)
    from False have dne: "d \<noteq> []" unfolding e_def by auto
    then have hd_d: "\<not> isWhiteSpace (hd d)" unfolding d_def by (metis hd_dropWhile)
    from False have "last e = last (rev d)" unfolding e_def by (rule last_dropWhile)
    with dne have "last e = hd d" by (simp add: last_rev)
    with hd_d False he have "\<not> isWhiteSpace (hd (rev e)) \<and> \<not> isWhiteSpace (last (rev e))"
      by (simp add: hd_rev last_rev)
    then have "trim (rev e) = rev e" by (simp add: trimmed_iff)
    with ts show ?thesis by simp
  qed
qed

text \<open>Lower-casing a code unit that is not white space gives no white space.\<close>

lemma lowerUnit_ws:
  "\<not> isWhiteSpace c \<Longrightarrow>
     lowerUnit c \<noteq> [] \<and> \<not> isWhiteSpace (hd (lowerUnit c)) \<and> \<not> isWhiteSpace (last (lowerUnit c))"
  by (auto simp: lowerUnit_def isWhiteSpace_def)

lemma trim_toLowerCase: "trim s = s \<Longrightarrow> trim (toLowerCase s) = toLowerCase s"
proof (cases "s = []")
  case True
  then show ?thesis by (simp add: toLowerCase_def trim_def)
next
  case False
  assume "trim s = s"
  with False have h: "\<not> isWhiteSpace (hd s)" and l: "\<not> isWhiteSpace (last s)"
    by (auto simp: trimmed_iff)
  from False obtain a as where s1: "s = a # as" by (cases s) auto
  from False obtain bs b where s2: "s = bs @ [b]" by (cases s rule: rev_cases) auto
  from h s1 have wa: "\<not> isWhiteSpace a" by simp
  from l s2 have wb: "\<not> isWhiteSpace b" by simp
  have "hd (toLowerCase s) = hd (lowerUnit a)"
    using lowerUnit_ws[OF wa] unfolding s1 by (simp add: toLowerCase_def)
  moreover have "last (toLowerCase s) = last (lowerUnit b)"
    using lowerUnit_ws[OF wb] unfolding s2 by (simp add: toLowerCase_def)
  ultimately show ?thesis
    using lowerUnit_ws[OF wa] lowerUnit_ws[OF wb] by (simp add: trimmed_iff)
qed

lemma trim_append_segment:
  assumes "trim p = p" "p \<noteq> []" "trim t = t" "t \<noteq> []"
  shows "trim (p @ [32] @ t) = p @ [32] @ t"
  using assms by (auto simp: trimmed_iff)

section \<open>The transcript merge\<close>

text \<open>
  The code against the ten steps with the amended step 9, for an arbitrary lower-casing
  function: all that is asked of it is that it puts no white space at the ends of a
  string that has none.
\<close>

lemma mergeWith_amended:
  assumes "case pending of None \<Rightarrow> True | Some p \<Rightarrow> trim p = p"
    and "trim incoming = incoming" and ine: "incoming \<noteq> []"
    and low: "\<forall>x. trim x = x \<longrightarrow> trim (lower x) = lower x"
  shows "mergeWith lower pending incoming = amended_merge lower pending incoming"
proof (cases pending)
  case None
  then show ?thesis by (simp add: mergeWith_def amended_merge_def trim_Nil)
next
  case (Some p)
  with assms have tp: "trim p = p" by simp
  show ?thesis
  proof (cases "p = []")
    case True
    with Some show ?thesis by (simp add: mergeWith_def amended_merge_def trim_Nil)
  next
    case False
    define N where "N = includesStr (lower incoming) (lower p)"
    define E where "E = includesStr (lower p) (lower incoming)"
    define OV where "OV = edgeContained (drop (length (lower p) - 10) (lower p))
                 (take 10 (lower incoming))"
    have app: "trim (p @ 32 # incoming) = p @ 32 # incoming"
      using trim_append_segment[OF tp False assms(2) ine] by simp
    have lp: "trim (lower p) = lower p"
      using tp low by simp
    have li: "trim (lower incoming) = lower incoming"
      using assms(2) low by simp
    have m: "mergeWith lower pending incoming =
       (if length incoming > length p \<and> N then incoming
        else if length incoming > length p then
          (if \<not> N \<and> \<not> E then trim (p @ 32 # incoming) else incoming)
        else if N \<and> length incoming \<ge> length p then incoming
        else if E \<and> length p > length incoming then p
        else if length incoming = length p \<and> incoming \<noteq> p then
          (if N then incoming else p)
        else if length incoming < length p \<and> \<not> N \<and> \<not> E then
          (if \<not> OV then trim (p @ 32 # incoming) else p)
        else p)"
      unfolding Some N_def E_def OV_def
      apply (simp only: mergeWith_def option.case)
      apply (simp only: False if_False)
      apply (simp only: lp li)
      apply (simp only: Let_def)
      apply (simp only: substringFrom_def substringTo_def edgeContained_def)
      apply (simp only: max_0L append_Cons append_Nil take_min_length de_Morgan_disj)
      done
    have sp: "amended_merge lower pending incoming =
       (if length incoming > length p \<and> N then incoming
        else if length incoming > length p \<and> \<not> N \<and> \<not> E then p @ 32 # incoming
        else if length incoming > length p then incoming
        else if N \<and> length incoming \<ge> length p then incoming
        else if E \<and> length p > length incoming then p
        else if length incoming = length p \<and> incoming \<noteq> p \<and> N then incoming
        else if length incoming < length p \<and> \<not> N \<and> \<not> E then
          (if \<not> OV then p @ 32 # incoming else p)
        else p)"
      unfolding Some N_def E_def OV_def
      apply (simp only: amended_merge_def option.case)
      apply (simp only: Let_def)
      apply (simp only: tp assms(2))
      apply (simp only: False if_False append_Cons append_Nil)
      done
    show ?thesis unfolding m sp using app by (cases N; cases E; cases OV; simp)
  qed
qed

text \<open>What the merge returns is not blank when what it is given is not.\<close>

lemma mergeWith_nonBlank:
  assumes "case pending of None \<Rightarrow> True | Some p \<Rightarrow> nonBlank p" and "nonBlank t"
  shows "nonBlank (mergeWith lower pending t)"
proof (cases pending)
  case None
  with assms show ?thesis by (simp add: mergeWith_def)
next
  case (Some p)
  with assms have p: "nonBlank p" by simp
  have "trim (p @ [32] @ t) = p @ [32] @ t"
    using p assms(2) by (intro trim_append_segment) (simp_all add: nonBlank_def)
  then have a: "nonBlank (trim (p @ [32] @ t))"
    by (simp add: nonBlank_def)
  show ?thesis
    unfolding Some mergeWith_def Let_def option.case
    using p assms(2) a by (simp split: if_splits)
qed

text \<open>
  Claim C3, as stated, fails at step 9. The caller has said "i would like to book a
  room" and the next transcript is "room for two": shorter, and neither contains the
  other. The last 10 characters of the first, "ook a room", and the first 10 of the
  second, "room for t", overlap in "room", so the specification keeps the pending
  transcript. The code tests only whether one of the two edges contains the other
  whole, finds that neither does, and appends: "... book a room room for two".
\<close>

theorem merge_step9_counterexample:
  "trim (js ''i would like to book a room'') = js ''i would like to book a room''
   \<and> trim (js ''room for two'') = js ''room for two''
   \<and> spec_overlap (js ''ook a room'') (js ''room for t'')
   \<and> spec_merge toLowerCase (Some (js ''i would like to book a room'')) (js ''room for two'')
       = js ''i would like to book a room''
   \<and> merge (Some (js ''i would like to book a room'')) (js ''room for two'')
       = js ''i would like to book a room room for two''"
  by (simp add: merge_def mergeWith_def spec_merge_def spec_overlap_def string_defs Let_def
      upt_rec)

text \<open>
  Claim C8. Merging a string with itself gives it back: \<open>merge(P, P) = P\<close>, for every
  string \<open>P\<close>, the empty one included.
\<close>

theorem merge_idempotent: "merge (Some P) P = P"
  by (simp add: merge_def mergeWith_def Let_def includesStr_refl)

theorem merge_idempotent_witness:
  "merge (Some (js ''Book an appointment'')) (js ''Book an appointment'')
     = js ''Book an appointment''"
  using merge_idempotent[of "js ''Book an appointment''"] by simp

text \<open>
  Claim C9, as stated, fails: containment is decided on the lower-cased strings and
  the lengths are taken of the strings themselves, and lower-casing can lengthen a
  string. With "i" followed by the combining dot above (U+0069 U+0307) pending and
  the capital I with dot above (U+0130) incoming, each lower-cased string contains
  the other, the incoming one is shorter, and the pending one is kept. A session that
  receives these two transcripts in turn ends with the first one pending.
\<close>

theorem merge_absorbs_counterexample:
  "includesStr (trim (toLowerCase [304])) (trim (toLowerCase [105, 775]))
   \<and> trim [304] = [304] \<and> trim [105, 775] = [105, 775]
   \<and> merge (Some [105, 775]) [304] = [105, 775]
   \<and> merge (Some [105, 775]) [304] \<noteq> [304]
   \<and> pendingTranscript
        (run [StartRecording, OnTranscript [105, 775] False 1000, OnTranscript [304] False 1200]
           (init True)) = Some [105, 775]"
  by (simp add: session_defs string_defs Let_def)

text \<open>
  Claim C9, amended. When the incoming transcript contains the pending one
  (case-insensitive, on trimmed strings) and is at least as long as it, the merge
  returns the incoming transcript.
\<close>

theorem merge_absorbs:
  assumes "includesStr (trim (toLowerCase T)) (trim (toLowerCase P))"
    and "length P \<le> length T"
  shows "merge (Some P) T = T"
  using assms by (auto simp: merge_def mergeWith_def Let_def)

theorem merge_absorbs_witness:
  "includesStr (trim (toLowerCase (js ''Book an''))) (trim (toLowerCase (js ''book'')))
   \<and> length (js ''book'') \<le> length (js ''Book an'')
   \<and> merge (Some (js ''book'')) (js ''Book an'') = js ''Book an''"
proof -
  have a: "includesStr (trim (toLowerCase (js ''Book an''))) (trim (toLowerCase (js ''book'')))"
    by (simp add: string_defs)
  have b: "length (js ''book'') \<le> length (js ''Book an'')"
    by (simp add: js_def)
  from merge_absorbs[OF a b] a b show ?thesis by simp
qed

section \<open>The send guard\<close>

text \<open>
  What every function of the session does to the state of the socket and to the frames
  sent: the state of the socket stays, and on a socket that is not OPEN no frame is added.
\<close>

named_theorems frame

lemma readyState_sendMessage [frame]:
  "readyState (sendMessage m s) = readyState s"
  by (simp add: sendMessage_def)

lemma sent_sendMessage [frame]:
  "readyState s \<noteq> OPEN \<Longrightarrow> sent (sendMessage m s) = sent s"
  by (simp add: sendMessage_def)

lemma readyState_cancelLLM [frame]:
  "readyState (cancelLLM h s) = readyState s"
  by (simp add: cancelLLM_def)

lemma sent_cancelLLM [frame]:
  "sent (cancelLLM h s) = sent s"
  by (simp add: cancelLLM_def)

lemma readyState_cancelTTS [frame]:
  "readyState (cancelTTS h s) = readyState s"
  by (simp add: cancelTTS_def)

lemma sent_cancelTTS [frame]:
  "sent (cancelTTS h s) = sent s"
  by (simp add: cancelTTS_def)

lemma readyState_cancelInFlight [frame]:
  "readyState (cancelInFlight s) = readyState s"
  by (simp add: cancelInFlight_def Let_def frame split: option.splits)

lemma sent_cancelInFlight [frame]:
  "sent (cancelInFlight s) = sent s"
  by (simp add: cancelInFlight_def Let_def frame split: option.splits)

lemma readyState_llmChunk [frame]:
  "readyState (llmChunk h d s) = readyState s"
  by (simp add: llmChunk_def onToken_def frame)

lemma sent_llmChunk [frame]:
  "readyState s \<noteq> OPEN \<Longrightarrow> sent (llmChunk h d s) = sent s"
  by (simp add: llmChunk_def onToken_def frame)

lemma readyState_llmEnd [frame]:
  "readyState (llmEnd h s) = readyState s"
  by (simp add: llmEnd_def)

lemma sent_llmEnd [frame]:
  "sent (llmEnd h s) = sent s"
  by (simp add: llmEnd_def)

lemma readyState_llmFail [frame]:
  "readyState (llmFail h a s) = readyState s"
  by (simp add: llmFail_def)

lemma sent_llmFail [frame]:
  "sent (llmFail h a s) = sent s"
  by (simp add: llmFail_def)

lemma readyState_createTTSStream [frame]:
  "readyState (fst (createTTSStream t s)) = readyState s"
  by (simp add: createTTSStream_def)

lemma sent_createTTSStream [frame]:
  "sent (fst (createTTSStream t s)) = sent s"
  by (simp add: createTTSStream_def)

lemma readyState_saveDone [frame]:
  "readyState (saveDone h s) = readyState s"
  by (simp add: saveDone_def Let_def split_beta frame split: phase.splits origin.splits)

lemma sent_saveDone [frame]:
  "readyState s \<noteq> OPEN \<Longrightarrow> sent (saveDone h s) = sent s"
  by (simp add: saveDone_def Let_def split_beta frame split: phase.splits origin.splits)

lemma readyState_ttsTimeout [frame]:
  "readyState (ttsTimeout h s) = readyState s"
  by (simp add: ttsTimeout_def Let_def frame)

lemma sent_ttsTimeout [frame]:
  "readyState s \<noteq> OPEN \<Longrightarrow> sent (ttsTimeout h s) = sent s"
  by (simp add: ttsTimeout_def Let_def frame)

lemma readyState_createOpenAIStream [frame]:
  "readyState (fst (createOpenAIStream org t s)) = readyState s"
  by (simp add: createOpenAIStream_def Let_def frame)

lemma sent_createOpenAIStream [frame]:
  "readyState s \<noteq> OPEN \<Longrightarrow> sent (fst (createOpenAIStream org t s)) = sent s"
  by (simp add: createOpenAIStream_def Let_def frame)

lemma readyState_processUserMessage [frame]:
  "readyState (processUserMessage u c s) = readyState s"
  by (simp add: processUserMessage_def Let_def split_beta frame)

lemma sent_processUserMessage [frame]:
  "readyState s \<noteq> OPEN \<Longrightarrow> sent (processUserMessage u c s) = sent s"
  by (simp add: processUserMessage_def Let_def split_beta frame)

lemma readyState_finalizeTranscript [frame]:
  "readyState (finalizeTranscript s) = readyState s"
  by (simp add: finalizeTranscript_def Let_def split_beta frame split: option.splits)

lemma sent_finalizeTranscript [frame]:
  "readyState s \<noteq> OPEN \<Longrightarrow> sent (finalizeTranscript s) = sent s"
  by (simp add: finalizeTranscript_def Let_def split_beta frame split: option.splits)

lemma readyState_transcriptUpdate [frame]:
  "readyState (transcriptUpdate f n s) = readyState s"
  by (simp add: transcriptUpdate_def Let_def frame split: option.splits)

lemma sent_transcriptUpdate [frame]:
  "readyState s \<noteq> OPEN \<Longrightarrow> sent (transcriptUpdate f n s) = sent s"
  by (simp add: transcriptUpdate_def Let_def frame split: option.splits)

lemma readyState_onTranscript [frame]:
  "readyState (onTranscript t f n s) = readyState s"
  by (simp add: onTranscript_def Let_def frame)

lemma sent_onTranscript [frame]:
  "readyState s \<noteq> OPEN \<Longrightarrow> sent (onTranscript t f n s) = sent s"
  by (simp add: onTranscript_def Let_def frame)

lemma readyState_clearSilenceDetection [frame]:
  "readyState (clearSilenceDetection s) = readyState s"
  by (simp add: clearSilenceDetection_def)

lemma sent_clearSilenceDetection [frame]:
  "sent (clearSilenceDetection s) = sent s"
  by (simp add: clearSilenceDetection_def)

lemma readyState_checkForFinalTranscript [frame]:
  "readyState (checkForFinalTranscript a s) = readyState s"
  by (simp add: checkForFinalTranscript_def Let_def frame)

lemma sent_checkForFinalTranscript [frame]:
  "readyState s \<noteq> OPEN \<Longrightarrow> sent (checkForFinalTranscript a s) = sent s"
  by (simp add: checkForFinalTranscript_def Let_def frame)

lemma readyState_silenceCheck [frame]:
  "readyState (silenceCheck n s) = readyState s"
  by (simp add: silenceCheck_def Let_def split: option.splits)

lemma sent_silenceCheck [frame]:
  "sent (silenceCheck n s) = sent s"
  by (simp add: silenceCheck_def Let_def split: option.splits)

lemma readyState_bufferCheck [frame]:
  "readyState (bufferCheck i n s) = readyState s"
  by (simp add: bufferCheck_def Let_def frame split: option.splits)

lemma sent_bufferCheck [frame]:
  "readyState s \<noteq> OPEN \<Longrightarrow> sent (bufferCheck i n s) = sent s"
  by (simp add: bufferCheck_def Let_def frame split: option.splits)

lemma readyState_startDeepgramStream [frame]:
  "readyState (startDeepgramStream s) = readyState s"
  by (simp add: startDeepgramStream_def startSilenceDetection_def Let_def frame)

lemma sent_startDeepgramStream [frame]:
  "sent (startDeepgramStream s) = sent s"
  by (simp add: startDeepgramStream_def startSilenceDetection_def Let_def frame)

lemma readyState_stopDeepgramStream [frame]:
  "readyState (stopDeepgramStream s) = readyState s"
  by (simp add: stopDeepgramStream_def Let_def frame split: option.splits)

lemma sent_stopDeepgramStream [frame]:
  "readyState s \<noteq> OPEN \<Longrightarrow> sent (stopDeepgramStream s) = sent s"
  by (simp add: stopDeepgramStream_def Let_def frame split: option.splits)

lemma readyState_onInterrupt [frame]:
  "readyState (onInterrupt s) = readyState s"
  by (simp add: onInterrupt_def Let_def frame split: option.splits)

lemma sent_onInterrupt [frame]:
  "readyState s \<noteq> OPEN \<Longrightarrow> sent (onInterrupt s) = sent s"
  by (simp add: onInterrupt_def Let_def frame split: option.splits)

lemma readyState_onClose [frame]:
  "readyState (onClose s) = CLOSED"
  by (simp add: onClose_def Let_def frame split: option.splits)

lemma sent_onClose [frame]:
  "sent (onClose s) = sent s"
  by (simp add: onClose_def Let_def frame split: option.splits)

lemma step_not_open:
  "readyState s \<noteq> OPEN \<Longrightarrow> sent (step e s) = sent s \<and> readyState (step e s) \<noteq> OPEN"
  by (cases e) (simp_all add: frame resetSilenceTimer_def split: option.splits)

lemma run_not_open:
  "readyState s \<noteq> OPEN \<Longrightarrow> sent (run es s) = sent s \<and> readyState (run es s) \<noteq> OPEN"
proof (induction es arbitrary: s)
  case Nil
  then show ?case by simp
next
  case (Cons e es)
  from step_not_open[OF Cons.prems]
  have a: "sent (step e s) = sent s" and b: "readyState (step e s) \<noteq> OPEN" by simp_all
  from Cons.IH[OF b] a show ?case by simp
qed

text \<open>
  Claim C10. \<open>sendMessage\<close> is the one place where a frame is sent, and it sends only
  on an OPEN socket. So once the socket is CLOSING or CLOSED, whatever callbacks still
  arrive (ticks, late tokens, completions, synthesis chunks, messages), no frame is
  sent and the socket does not reopen.
\<close>

theorem send_guard:
  assumes "readyState s \<noteq> OPEN"
  shows "sent (sendMessage m s) = sent s
       \<and> sent (run es s) = sent s
       \<and> readyState (run es s) \<noteq> OPEN"
  using assms run_not_open[OF assms] by (simp add: sendMessage_def)

text \<open>
  The theorem on a session that was closed while a completion was streaming: the late
  token, the end of the stream, a tick and a transcription error send nothing.
\<close>

theorem send_guard_witness:
  "readyState (run [ChatMessage (Some (js ''hi'')), SocketClose] (init True)) \<noteq> OPEN
   \<and> sent (run [LlmChunk 0 (js ''late''), LlmEnd 0, SaveDone 0, SilenceCheck 9000, OnSttError]
            (run [ChatMessage (Some (js ''hi'')), SocketClose] (init True)))
       = sent (run [ChatMessage (Some (js ''hi'')), SocketClose] (init True))
   \<and> sent (run [ChatMessage (Some (js ''hi'')), SocketClose] (init True))
       = [Status Connected None, Status Thinking None, AgentText [] True]"
proof -
  define s0 where "s0 = run [ChatMessage (Some (js ''hi'')), SocketClose] (init True)"
  have a: "readyState s0 \<noteq> OPEN"
    unfolding s0_def by (simp add: session_defs string_defs Let_def)
  have b: "sent s0 = [Status Connected None, Status Thinking None, AgentText [] True]"
    unfolding s0_def by (simp add: session_defs string_defs Let_def)
  from send_guard[OF a]
  have c: "sent (run [LlmChunk 0 (js ''late''), LlmEnd 0, SaveDone 0, SilenceCheck 9000,
                      OnSttError] s0) = sent s0"
    by blast
  show ?thesis using a b c unfolding s0_def by blast
qed

section \<open>What is submitted\<close>

lemma map_userText_mapAt:
  "(\<And>x. userText (f x) = userText x) \<Longrightarrow> map userText (mapAt i f xs) = map userText xs"
  by (simp add: mapAt_def map_update list_update_same_conv)

lemma submittedTexts_update [simp]:
  "submittedTexts (s\<lparr>currentLLMStream := a\<rparr>) = submittedTexts s"
  "submittedTexts (s\<lparr>currentTTSStream := b\<rparr>) = submittedTexts s"
  "submittedTexts (s\<lparr>conversationHistory := c\<rparr>) = submittedTexts s"
  "submittedTexts (s\<lparr>pendingTranscript := d\<rparr>) = submittedTexts s"
  "submittedTexts (s\<lparr>lastFinalizedTranscript := d\<rparr>) = submittedTexts s"
  "submittedTexts (s\<lparr>lastSentTranscript := d\<rparr>) = submittedTexts s"
  "submittedTexts (s\<lparr>receivedFinalTranscript := f\<rparr>) = submittedTexts s"
  "submittedTexts (s\<lparr>llmCallPending := f\<rparr>) = submittedTexts s"
  "submittedTexts (s\<lparr>lastTranscriptTime := g\<rparr>) = submittedTexts s"
  "submittedTexts (s\<lparr>lastAudioChunkTime := g\<rparr>) = submittedTexts s"
  "submittedTexts (s\<lparr>bufferTimers := i\<rparr>) = submittedTexts s"
  "submittedTexts (s\<lparr>ttsStreams := j\<rparr>) = submittedTexts s"
  "submittedTexts (s\<lparr>isRecording := f\<rparr>) = submittedTexts s"
  "submittedTexts (s\<lparr>deepgramStream := f\<rparr>) = submittedTexts s"
  "submittedTexts (s\<lparr>silenceTimeout := f\<rparr>) = submittedTexts s"
  "submittedTexts (s\<lparr>silenceCheckInterval := f\<rparr>) = submittedTexts s"
  "submittedTexts (s\<lparr>readyState := r\<rparr>) = submittedTexts s"
  "submittedTexts (s\<lparr>sent := k\<rparr>) = submittedTexts s"
  by (simp_all add: submittedTexts_def)

lemma submittedTexts_sendMessage [frame]: "submittedTexts (sendMessage m s) = submittedTexts s"
  by (simp add: sendMessage_def)

lemma submittedTexts_cancelLLM [frame]: "submittedTexts (cancelLLM h s) = submittedTexts s"
  by (simp add: cancelLLM_def submittedTexts_def map_userText_mapAt)

lemma submittedTexts_cancelTTS [frame]: "submittedTexts (cancelTTS h s) = submittedTexts s"
  by (simp add: cancelTTS_def)

lemma submittedTexts_cancelInFlight [frame]: "submittedTexts (cancelInFlight s) = submittedTexts s"
  by (simp add: cancelInFlight_def Let_def frame split: option.splits)

lemma submittedTexts_llmChunk [frame]: "submittedTexts (llmChunk h d s) = submittedTexts s"
  by (simp add: llmChunk_def onToken_def frame) (simp add: submittedTexts_def map_userText_mapAt)

lemma submittedTexts_llmEnd [frame]: "submittedTexts (llmEnd h s) = submittedTexts s"
  by (simp add: llmEnd_def submittedTexts_def map_userText_mapAt)

lemma submittedTexts_llmFail [frame]: "submittedTexts (llmFail h a s) = submittedTexts s"
  by (simp add: llmFail_def submittedTexts_def map_userText_mapAt)

lemma submittedTexts_createTTSStream [frame]:
  "submittedTexts (fst (createTTSStream t s)) = submittedTexts s"
  by (simp add: createTTSStream_def)

lemma submittedTexts_saveDone [frame]: "submittedTexts (saveDone h s) = submittedTexts s"
proof -
  have a: "submittedTexts (s\<lparr>llmStreams := mapAt h (\<lambda>st. st\<lparr>phase := Settled\<rparr>) (llmStreams s)\<rparr>)
             = submittedTexts s"
    by (simp add: submittedTexts_def map_userText_mapAt)
  show ?thesis
    by (simp add: saveDone_def Let_def split_beta frame a split: phase.splits origin.splits)
qed

lemma submittedTexts_ttsTimeout [frame]: "submittedTexts (ttsTimeout h s) = submittedTexts s"
  by (simp add: ttsTimeout_def Let_def frame)

lemma submittedTexts_createOpenAIStream [frame]:
  "submittedTexts (fst (createOpenAIStream org t s)) = submittedTexts s @ [t]"
proof -
  have a: "\<And>st. submittedTexts (s\<lparr>llmStreams := llmStreams s @ [st]\<rparr>)
                  = submittedTexts s @ [userText st]"
    by (simp add: submittedTexts_def)
  show ?thesis
    by (simp add: createOpenAIStream_def Let_def frame a)
qed

lemma submittedTexts_processUserMessage [frame]:
  "submittedTexts (processUserMessage u c s)
     = (if trim u = [] then submittedTexts s else submittedTexts s @ [trim u])"
  by (auto simp add: processUserMessage_def Let_def split_beta frame trim_Nil)

lemma submittedTexts_finalizeTranscript:
  "submittedTexts (finalizeTranscript s) =
     (case pendingTranscript s of
        None \<Rightarrow> submittedTexts s
      | Some p \<Rightarrow>
          if trim p = [] \<or> lastFinalizedTranscript s = Some (trim p) then submittedTexts s
          else submittedTexts s @ [trim p])"
  by (auto simp add: finalizeTranscript_def Let_def split_beta frame trim_Nil split: option.splits)

lemma submittedTexts_transcriptUpdate [frame]:
  "submittedTexts (transcriptUpdate f n s) = submittedTexts s"
  by (simp add: transcriptUpdate_def Let_def frame split: option.splits)

lemma submittedTexts_onTranscript [frame]:
  "submittedTexts (onTranscript t f n s) = submittedTexts s"
  by (simp add: onTranscript_def Let_def frame)

lemma submittedTexts_clearSilenceDetection [frame]:
  "submittedTexts (clearSilenceDetection s) = submittedTexts s"
  by (simp add: clearSilenceDetection_def)

lemma submittedTexts_checkForFinalTranscript:
  "submittedTexts (checkForFinalTranscript a s) =
     (let t = (case pendingTranscript s of
                 None \<Rightarrow> a
               | Some p \<Rightarrow> if trim p \<noteq> [] then trim p else a)
      in if trim t = [] then submittedTexts s else submittedTexts s @ [trim t])"
  by (auto simp add: checkForFinalTranscript_def Let_def frame trim_Nil split: option.splits)

lemma submittedTexts_silenceCheck [frame]: "submittedTexts (silenceCheck n s) = submittedTexts s"
  by (simp add: silenceCheck_def Let_def split: option.splits)

lemma submittedTexts_startDeepgramStream [frame]:
  "submittedTexts (startDeepgramStream s) = submittedTexts s"
  by (simp add: startDeepgramStream_def startSilenceDetection_def Let_def frame)

lemma submittedTexts_onInterrupt [frame]: "submittedTexts (onInterrupt s) = submittedTexts s"
  by (simp add: onInterrupt_def Let_def frame split: option.splits)

lemma submittedTexts_onClose [frame]: "submittedTexts (onClose s) = submittedTexts s"
  by (simp add: onClose_def Let_def frame split: option.splits)

lemma submitsNonBlank_same: "submittedTexts s' = submittedTexts s \<Longrightarrow> submitsNonBlank s s'"
  by (simp add: submitsNonBlank_def)

lemma submitsNonBlank_one:
  "submittedTexts s' = submittedTexts s @ [t] \<Longrightarrow> nonBlank t \<Longrightarrow> submitsNonBlank s s'"
  by (simp add: submitsNonBlank_def)

lemma nonBlank_trim: "trim t \<noteq> [] \<Longrightarrow> nonBlank (trim t)"
  by (simp add: nonBlank_def trim_idem)

lemma submitsNonBlank_processUserMessage: "submitsNonBlank s (processUserMessage u c s)"
  by (cases "trim u = []")
    (simp_all add: submitsNonBlank_same submitsNonBlank_one nonBlank_trim frame)

lemma submitsNonBlank_finalizeTranscript: "submitsNonBlank s (finalizeTranscript s)"
  by (simp add: submitsNonBlank_def submittedTexts_finalizeTranscript nonBlank_trim
      split: option.splits)

lemma submitsNonBlank_checkForFinalTranscript: "submitsNonBlank s (checkForFinalTranscript a s)"
  by (simp add: submitsNonBlank_def submittedTexts_checkForFinalTranscript Let_def
      nonBlank_trim trim_idem split: option.splits)

lemma submitsNonBlank_bufferCheck: "submitsNonBlank s (bufferCheck i n s)"
proof -
  have g: "\<And>a bs. submitsNonBlank s (checkForFinalTranscript a (s\<lparr>bufferTimers := bs\<rparr>))"
    using submitsNonBlank_checkForFinalTranscript[of "s\<lparr>bufferTimers := bs\<rparr>" for bs]
    by (simp add: submitsNonBlank_def)
  have k: "\<And>bs. submitsNonBlank s (s\<lparr>bufferTimers := bs\<rparr>)"
    by (simp add: submitsNonBlank_def)
  show ?thesis
    by (simp add: bufferCheck_def Let_def g k submitsNonBlank_same split: option.splits)
qed

lemma submitsNonBlank_stopDeepgramStream: "submitsNonBlank s (stopDeepgramStream s)"
proof -
  have "submittedTexts (stopDeepgramStream s) = submittedTexts s
        \<or> submittedTexts (stopDeepgramStream s) = submittedTexts (finalizeTranscript s)"
    by (simp add: stopDeepgramStream_def Let_def frame split: option.splits)
  then show ?thesis
    using submitsNonBlank_finalizeTranscript[of s] by (auto simp: submitsNonBlank_def)
qed

lemma submitsNonBlank_step: "submitsNonBlank s (step e s)"
proof (cases e)
  case StopRecording
  have "submittedTexts (step StopRecording s)
          = submittedTexts (stopDeepgramStream (s\<lparr>isRecording := False\<rparr>))"
    by (simp add: frame)
  with submitsNonBlank_stopDeepgramStream[of "s\<lparr>isRecording := False\<rparr>"] StopRecording
  show ?thesis by (simp add: submitsNonBlank_def)
next
  case (ChatMessage x)
  then show ?thesis
    using submitsNonBlank_processUserMessage
    by (simp add: submitsNonBlank_same split: option.splits)
next
  case (BufferCheck i n)
  then show ?thesis by (simp add: submitsNonBlank_bufferCheck)
qed (simp_all add: submitsNonBlank_same frame resetSilenceTimer_def)

lemma nonBlank_run:
  "\<forall>t \<in> set (submittedTexts s). nonBlank t \<Longrightarrow> \<forall>t \<in> set (submittedTexts (run es s)). nonBlank t"
proof (induction es arbitrary: s)
  case Nil
  then show ?case by simp
next
  case (Cons e es)
  have "\<forall>t \<in> set (submittedTexts (step e s)). nonBlank t"
    using submitsNonBlank_step[of s e] Cons.prems
    by (auto simp: submitsNonBlank_def) (metis Un_iff empty_iff insert_iff list.simps(15) set_append empty_set)
  then show ?case using Cons.IH by simp
qed

section \<open>The pending transcript and the kept transcripts\<close>

text \<open>
  In every state a session can reach, the pending transcript is null or a trimmed
  string that is not empty: \<open>onTranscript\<close> stores the merge of such a value with a
  trimmed text that is not empty, and everything else leaves the variable or sets it
  to null.
\<close>

named_theorems pending

lemma pendingTranscript_sendMessage [pending]:
  "pendingTranscript (sendMessage m s) = pendingTranscript s"
  by (simp add: sendMessage_def)

lemma pendingTranscript_cancelInFlight [pending]:
  "pendingTranscript (cancelInFlight s) = pendingTranscript s"
  by (simp add: cancelInFlight_def cancelLLM_def cancelTTS_def Let_def split: option.splits)

lemma pendingTranscript_llmChunk [pending]:
  "pendingTranscript (llmChunk h d s) = pendingTranscript s"
  by (simp add: llmChunk_def onToken_def pending)

lemma pendingTranscript_llmEnd [pending]:
  "pendingTranscript (llmEnd h s) = pendingTranscript s"
  by (simp add: llmEnd_def)

lemma pendingTranscript_llmFail [pending]:
  "pendingTranscript (llmFail h a s) = pendingTranscript s"
  by (simp add: llmFail_def)

lemma pendingTranscript_saveDone [pending]:
  "pendingTranscript (saveDone h s) = pendingTranscript s"
  by (simp add: saveDone_def createTTSStream_def Let_def pending split: phase.splits origin.splits)

lemma pendingTranscript_ttsTimeout [pending]:
  "pendingTranscript (ttsTimeout h s) = pendingTranscript s"
  by (simp add: ttsTimeout_def Let_def pending)

lemma pendingTranscript_createOpenAIStream [pending]:
  "pendingTranscript (fst (createOpenAIStream org t s)) = pendingTranscript s"
  by (simp add: createOpenAIStream_def Let_def pending)

lemma pendingTranscript_processUserMessage [pending]:
  "pendingTranscript (processUserMessage u c s) = pendingTranscript s"
  by (simp add: processUserMessage_def Let_def split_beta pending)

lemma pendingTranscript_transcriptUpdate [pending]:
  "pendingTranscript (transcriptUpdate f n s) = pendingTranscript s"
  by (simp add: transcriptUpdate_def Let_def pending split: option.splits)

lemma pendingTranscript_silenceCheck [pending]:
  "pendingTranscript (silenceCheck n s) = pendingTranscript s"
  by (simp add: silenceCheck_def Let_def split: option.splits)

lemma pendingTranscript_onInterrupt [pending]:
  "pendingTranscript (onInterrupt s) = pendingTranscript s"
  by (simp add: onInterrupt_def cancelLLM_def cancelTTS_def Let_def pending split: option.splits)

lemma pendingTranscript_onClose [pending]:
  "pendingTranscript (onClose s) = pendingTranscript s"
  by (simp add: onClose_def clearSilenceDetection_def cancelLLM_def cancelTTS_def Let_def split: option.splits)

lemma pendingTranscript_onTranscript:
  "trim text \<noteq> [] \<Longrightarrow>
     pendingTranscript (onTranscript text isFinal now s)
       = Some (merge (pendingTranscript s) (trim text))"
proof -
  assume a: "trim text \<noteq> []"
  then have "text \<noteq> []" by (auto simp: trim_Nil)
  with a show ?thesis
    by (simp add: onTranscript_def Let_def pending)
qed

lemma pendingTrimmed_same:
  "pendingTranscript s' = pendingTranscript s \<or> pendingTranscript s' = None \<Longrightarrow>
     pendingTrimmed s \<Longrightarrow> pendingTrimmed s'"
  by (auto simp: pendingTrimmed_def)

lemma pendingTrimmed_onTranscript:
  assumes "pendingTrimmed s"
  shows "pendingTrimmed (onTranscript text isFinal now s)"
proof (cases "trim text = []")
  case True
  then show ?thesis using assms by (simp add: onTranscript_def)
next
  case False
  have "nonBlank (trim text)" using False by (rule nonBlank_trim)
  moreover have "case pendingTranscript s of None \<Rightarrow> True | Some p \<Rightarrow> nonBlank p"
    using assms by (simp add: pendingTrimmed_def)
  ultimately have "nonBlank (mergeWith toLowerCase (pendingTranscript s) (trim text))"
    by (intro mergeWith_nonBlank)
  then show ?thesis
    using pendingTranscript_onTranscript[OF False]
    by (simp add: pendingTrimmed_def merge_def)
qed

lemma pendingTranscript_finalizeTranscript:
  "pendingTranscript (finalizeTranscript s) = pendingTranscript s
   \<or> pendingTranscript (finalizeTranscript s) = None"
  by (simp add: finalizeTranscript_def Let_def split_beta pending split: option.splits)

lemma pendingTrimmed_checkForFinalTranscript:
  "pendingTrimmed s \<Longrightarrow> pendingTrimmed (checkForFinalTranscript a s)"
  by (simp add: checkForFinalTranscript_def Let_def pendingTrimmed_def)

lemma pendingTrimmed_bufferCheck:
  assumes "pendingTrimmed s"
  shows "pendingTrimmed (bufferCheck i n s)"
proof -
  have k: "\<And>bs. pendingTrimmed (s\<lparr>bufferTimers := bs\<rparr>)"
    using assms by (simp add: pendingTrimmed_def)
  have g: "\<And>a bs. pendingTrimmed (checkForFinalTranscript a (s\<lparr>bufferTimers := bs\<rparr>))"
    using k by (rule pendingTrimmed_checkForFinalTranscript)
  show ?thesis
    using assms by (simp add: bufferCheck_def Let_def g k split: option.splits)
qed

lemma pendingTranscript_startDeepgramStream:
  "pendingTranscript (startDeepgramStream s) = pendingTranscript s
   \<or> pendingTranscript (startDeepgramStream s) = None"
  by (simp add: startDeepgramStream_def startSilenceDetection_def clearSilenceDetection_def
      Let_def)

lemma pendingTranscript_stopDeepgramStream: "pendingTranscript (stopDeepgramStream s) = None"
  by (simp add: stopDeepgramStream_def Let_def)

lemma pendingTrimmed_step: "pendingTrimmed s \<Longrightarrow> pendingTrimmed (step e s)"
proof (cases e)
  case StartRecording
  assume a: "pendingTrimmed s"
  have "pendingTrimmed (startDeepgramStream (s\<lparr>isRecording := True\<rparr>))"
    using pendingTranscript_startDeepgramStream[of "s\<lparr>isRecording := True\<rparr>"] a
    by (auto simp: pendingTrimmed_def)
  then show ?thesis using StartRecording by (simp add: pendingTrimmed_def pending)
next
  case StopRecording
  then show ?thesis
    by (simp add: pendingTrimmed_def pending pendingTranscript_stopDeepgramStream)
next
  case (OnTranscript t f n)
  assume "pendingTrimmed s"
  then show ?thesis using OnTranscript by (simp add: pendingTrimmed_onTranscript)
next
  case (BufferCheck i n)
  assume "pendingTrimmed s"
  then show ?thesis using BufferCheck by (simp add: pendingTrimmed_bufferCheck)
qed (simp_all add: pendingTrimmed_def pending resetSilenceTimer_def split: option.splits)

lemma pendingTrimmed_run: "pendingTrimmed s \<Longrightarrow> pendingTrimmed (run es s)"
  by (induction es arbitrary: s) (simp_all add: pendingTrimmed_step)

lemma pendingTrimmed_reachable: "pendingTrimmed (run es (init key))"
  by (rule pendingTrimmed_run) (simp add: pendingTrimmed_def init_def sendMessage_def)

text \<open>
  Claim C3, amended. The pending transcript of a session is always null or a trimmed
  string that is not empty, and \<open>onTranscript\<close> merges it with the trimmed text of the
  transcript, when that is not empty. For such a pair the code returns what the ten
  steps of section 4.1 prescribe, with step 9 read as the code decides it: when the
  incoming transcript is strictly shorter and neither contains the other, the two are
  joined by a space unless one of the two edges (the last 10 code units of the
  lower-cased pending transcript, the first 10 of the lower-cased incoming one)
  contains the other whole, and the pending transcript is kept otherwise. This holds
  for every lower-casing function that puts no white space at the ends of a string
  that has none.
\<close>

theorem merge_refines_amended:
  "pendingTrimmed (run es (init key))
   \<and> (trim text \<noteq> [] \<longrightarrow>
        pendingTranscript (onTranscript text isFinal now s)
          = Some (merge (pendingTranscript s) (trim text)))
   \<and> ((\<forall>x. trim x = x \<longrightarrow> trim (lower x) = lower x)
        \<and> (case pending of None \<Rightarrow> True | Some p \<Rightarrow> trim p = p)
        \<and> trim incoming = incoming \<and> incoming \<noteq> []
       \<longrightarrow> mergeWith lower pending incoming = amended_merge lower pending incoming)"
  using pendingTrimmed_reachable pendingTranscript_onTranscript mergeWith_amended
  by blast

text \<open>
  The theorem at "book an" followed by "appointment", with the lower-casing of the
  table: the longer transcript contains nothing of the pending one and is appended to
  it (step 4), in the merge and in a session that hears the two.
\<close>

theorem merge_refines_amended_witness:
  "trim (js ''book an'') = js ''book an''
   \<and> trim (js ''appointment'') = js ''appointment''
   \<and> mergeWith toLowerCase (Some (js ''book an'')) (js ''appointment'')
       = amended_merge toLowerCase (Some (js ''book an'')) (js ''appointment'')
   \<and> mergeWith toLowerCase (Some (js ''book an'')) (js ''appointment'')
       = js ''book an appointment''
   \<and> pendingTranscript
        (run [StartRecording, OnTranscript (js ''book an'') False 1000,
              OnTranscript (js '' appointment'') False 1400] (init True))
       = Some (js ''book an appointment'')"
proof -
  have a: "trim (js ''book an'') = js ''book an''"
    and b: "trim (js ''appointment'') = js ''appointment''"
    by (simp_all add: string_defs)
  have c: "mergeWith toLowerCase (Some (js ''book an'')) (js ''appointment'')
             = js ''book an appointment''"
    by (simp add: mergeWith_def string_defs Let_def)
  have l: "\<forall>x. trim x = x \<longrightarrow> trim (toLowerCase x) = toLowerCase x"
    by (simp add: trim_toLowerCase)
  have n: "js ''appointment'' \<noteq> []" by (simp add: js_def)
  have h: "case Some (js ''book an'') of None \<Rightarrow> True | Some p \<Rightarrow> trim p = p"
    using a by simp
  from merge_refines_amended[of _ _ _ _ _ _ toLowerCase "Some (js ''book an'')" "js ''appointment''"]
    l h b n
  have d: "mergeWith toLowerCase (Some (js ''book an'')) (js ''appointment'')
             = amended_merge toLowerCase (Some (js ''book an'')) (js ''appointment'')"
    by blast
  have e: "pendingTranscript
        (run [StartRecording, OnTranscript (js ''book an'') False 1000,
              OnTranscript (js '' appointment'') False 1400] (init True))
       = Some (js ''book an appointment'')"
    by (simp add: session_defs string_defs Let_def)
  from a b c d e show ?thesis by (intro conjI)
qed

section \<open>What the endpointer finalizes\<close>

lemma bufferTicks_numeral:
  "bufferTicks i t (numeral k)
     = BufferCheck i (t + 100) # bufferTicks i (t + 100) (pred_numeral k)"
  by (simp add: numeral_eq_Suc)

lemma snapshots_update [simp]:
  "snapshots (s\<lparr>currentLLMStream := a\<rparr>) = snapshots s"
  "snapshots (s\<lparr>currentTTSStream := b\<rparr>) = snapshots s"
  "snapshots (s\<lparr>conversationHistory := c\<rparr>) = snapshots s"
  "snapshots (s\<lparr>pendingTranscript := d\<rparr>) = snapshots s"
  "snapshots (s\<lparr>lastFinalizedTranscript := d\<rparr>) = snapshots s"
  "snapshots (s\<lparr>lastSentTranscript := d\<rparr>) = snapshots s"
  "snapshots (s\<lparr>receivedFinalTranscript := f\<rparr>) = snapshots s"
  "snapshots (s\<lparr>llmCallPending := f\<rparr>) = snapshots s"
  "snapshots (s\<lparr>lastTranscriptTime := g\<rparr>) = snapshots s"
  "snapshots (s\<lparr>lastAudioChunkTime := g\<rparr>) = snapshots s"
  "snapshots (s\<lparr>llmStreams := i\<rparr>) = snapshots s"
  "snapshots (s\<lparr>ttsStreams := j\<rparr>) = snapshots s"
  "snapshots (s\<lparr>isRecording := f\<rparr>) = snapshots s"
  "snapshots (s\<lparr>deepgramStream := f\<rparr>) = snapshots s"
  "snapshots (s\<lparr>silenceTimeout := f\<rparr>) = snapshots s"
  "snapshots (s\<lparr>silenceCheckInterval := f\<rparr>) = snapshots s"
  "snapshots (s\<lparr>readyState := r\<rparr>) = snapshots s"
  "snapshots (s\<lparr>sent := k\<rparr>) = snapshots s"
  by (simp_all add: snapshots_def)

lemma snapshots_sendMessage [frame]:
  "snapshots (sendMessage m s) = snapshots s"
  by (simp add: sendMessage_def)

lemma snapshots_cancelLLM [frame]:
  "snapshots (cancelLLM h s) = snapshots s"
  by (simp add: cancelLLM_def)

lemma snapshots_cancelTTS [frame]:
  "snapshots (cancelTTS h s) = snapshots s"
  by (simp add: cancelTTS_def)

lemma snapshots_cancelInFlight [frame]:
  "snapshots (cancelInFlight s) = snapshots s"
  by (simp add: cancelInFlight_def Let_def frame split: option.splits)

lemma snapshots_llmChunk [frame]:
  "snapshots (llmChunk h d s) = snapshots s"
  by (simp add: llmChunk_def onToken_def frame)

lemma snapshots_llmEnd [frame]:
  "snapshots (llmEnd h s) = snapshots s"
  by (simp add: llmEnd_def)

lemma snapshots_llmFail [frame]:
  "snapshots (llmFail h a s) = snapshots s"
  by (simp add: llmFail_def)

lemma snapshots_createTTSStream [frame]:
  "snapshots (fst (createTTSStream t s)) = snapshots s"
  by (simp add: createTTSStream_def)

lemma snapshots_saveDone [frame]:
  "snapshots (saveDone h s) = snapshots s"
  by (simp add: saveDone_def Let_def split_beta frame split: phase.splits origin.splits)

lemma snapshots_ttsTimeout [frame]:
  "snapshots (ttsTimeout h s) = snapshots s"
  by (simp add: ttsTimeout_def Let_def frame)

lemma snapshots_createOpenAIStream [frame]:
  "snapshots (fst (createOpenAIStream org t s)) = snapshots s"
  by (simp add: createOpenAIStream_def Let_def frame)

lemma snapshots_processUserMessage [frame]:
  "snapshots (processUserMessage u c s) = snapshots s"
  by (simp add: processUserMessage_def Let_def split_beta frame)

lemma snapshots_finalizeTranscript [frame]:
  "snapshots (finalizeTranscript s) = snapshots s"
  by (simp add: finalizeTranscript_def Let_def split_beta frame split: option.splits)

lemma snapshots_transcriptUpdate [frame]:
  "snapshots (transcriptUpdate f n s) = snapshots s"
  by (simp add: transcriptUpdate_def Let_def frame split: option.splits)

lemma snapshots_onTranscript [frame]:
  "snapshots (onTranscript t f n s) = snapshots s"
  by (simp add: onTranscript_def Let_def frame)

lemma snapshots_clearSilenceDetection [frame]:
  "snapshots (clearSilenceDetection s) = snapshots s"
  by (simp add: clearSilenceDetection_def)

lemma snapshots_checkForFinalTranscript [frame]:
  "snapshots (checkForFinalTranscript a s) = snapshots s"
  by (simp add: checkForFinalTranscript_def Let_def frame)

lemma snapshots_startDeepgramStream [frame]:
  "snapshots (startDeepgramStream s) = snapshots s"
  by (simp add: startDeepgramStream_def startSilenceDetection_def Let_def frame)

lemma snapshots_stopDeepgramStream [frame]:
  "snapshots (stopDeepgramStream s) = snapshots s"
  by (simp add: stopDeepgramStream_def Let_def frame split: option.splits)

lemma snapshots_onInterrupt [frame]:
  "snapshots (onInterrupt s) = snapshots s"
  by (simp add: onInterrupt_def Let_def frame split: option.splits)

lemma snapshots_onClose [frame]:
  "snapshots (onClose s) = snapshots s"
  by (simp add: onClose_def Let_def frame split: option.splits)

lemma snapshots_bufferCheck [frame]: "snapshots (bufferCheck i n s) = snapshots s"
proof -
  have u: "\<And>b'. transcriptAtSilence b' = transcriptAtSilence (bufferTimers s ! i) \<Longrightarrow>
             i < length (bufferTimers s) \<Longrightarrow>
             snapshots (s\<lparr>bufferTimers := (bufferTimers s)[i := b']\<rparr>) = snapshots s"
    by (simp add: snapshots_def map_update list_update_same_conv)
  show ?thesis
    by (simp add: bufferCheck_def Let_def frame u split: option.splits)
qed

lemma snapshots_silenceCheck:
  "snapshots (silenceCheck now s) = snapshots s
   \<or> (case pendingTranscript s of
         None \<Rightarrow> False
       | Some p \<Rightarrow> trim p \<noteq> [] \<and> snapshots (silenceCheck now s) = snapshots s @ [trim p])"
  by (simp add: silenceCheck_def snapshots_def Let_def split: option.splits)

lemma nonBlank_snapshots_step:
  assumes "\<forall>t \<in> set (snapshots s). nonBlank t"
  shows "\<forall>t \<in> set (snapshots (step e s)). nonBlank t"
proof (cases e)
  case (SilenceCheck now)
  show ?thesis
  proof (cases "silenceCheckInterval s")
    case True
    with SilenceCheck snapshots_silenceCheck[of now s] assms show ?thesis
      by (auto simp: nonBlank_trim split: option.splits)
  next
    case False
    with SilenceCheck assms show ?thesis by simp
  qed
qed (use assms in \<open>simp_all add: frame resetSilenceTimer_def split: option.splits\<close>)

lemma nonBlank_snapshots_run:
  "\<forall>t \<in> set (snapshots s). nonBlank t \<Longrightarrow> \<forall>t \<in> set (snapshots (run es s)). nonBlank t"
proof (induction es arbitrary: s)
  case Nil
  then show ?case by simp
next
  case (Cons e es)
  from nonBlank_snapshots_step[OF Cons.prems, of e] Cons.IH[of "step e s"]
  show ?case by simp
qed

lemma kept_text_never_blank:
  "\<forall>b \<in> set (bufferTimers (run es (init key))).
      transcriptAtSilence b \<noteq> [] \<and> trim (transcriptAtSilence b) = transcriptAtSilence b"
proof -
  have "snapshots (init key) = []"
    by (simp add: init_def sendMessage_def snapshots_def)
  then have "\<forall>t \<in> set (snapshots (run es (init key))). nonBlank t"
    using nonBlank_snapshots_run[of "init key"] by simp
  then show ?thesis by (simp add: snapshots_def nonBlank_def)
qed

lemma finalizeTranscript_guard:
  "submittedTexts (finalizeTranscript s) \<noteq> submittedTexts s \<longrightarrow>
     (case pendingTranscript s of
        None \<Rightarrow> False
      | Some p \<Rightarrow> trim p \<noteq> []
                  \<and> submittedTexts (finalizeTranscript s) = submittedTexts s @ [trim p])"
  by (simp add: submittedTexts_finalizeTranscript split: option.splits)

lemma silenceCheck_guard:
  "bufferTimers (silenceCheck now s) \<noteq> bufferTimers s \<longrightarrow>
     (case pendingTranscript s of
        None \<Rightarrow> False
      | Some p \<Rightarrow> trim p \<noteq> []
                  \<and> map transcriptAtSilence (bufferTimers (silenceCheck now s))
                      = map transcriptAtSilence (bufferTimers s) @ [trim p])"
  by (simp add: silenceCheck_def Let_def split: option.splits)

lemma checkForFinalTranscript_guard:
  "submittedTexts (checkForFinalTranscript atSilence s) \<noteq> submittedTexts s \<longrightarrow>
     submittedTexts (checkForFinalTranscript atSilence s)
       = submittedTexts s @
           [case pendingTranscript s of
              None \<Rightarrow> trim atSilence
            | Some p \<Rightarrow> if trim p \<noteq> [] then trim p else trim atSilence]"
  by (simp add: submittedTexts_checkForFinalTranscript Let_def trim_idem split: option.splits)

lemma started_text_never_blank:
  "\<forall>st \<in> set (llmStreams (run es (init key))).
      userText st \<noteq> [] \<and> trim (userText st) = userText st"
proof -
  have "submittedTexts (init key) = []"
    by (simp add: init_def sendMessage_def submittedTexts_def)
  then have "\<forall>t \<in> set (submittedTexts (run es (init key))). nonBlank t"
    using nonBlank_run[of "init key"] by simp
  then show ?thesis by (simp add: submittedTexts_def nonBlank_def)
qed

text \<open>
  Claim C6, as stated, fails: a turn can be submitted while the pending transcript is
  null. A recording hears "hello"; the silence check keeps "hello" and starts the
  buffer interval; \<open>stop_recording\<close> finalizes "hello" and sets the pending transcript
  to null. The buffer interval goes on, and its fifteenth tick, finding nothing
  pending, submits the transcript it kept.
\<close>

theorem submitted_while_pending_null:
  "pendingTranscript
      (run ([StartRecording, OnTranscript (js ''hello'') False 1000, SilenceCheck 6000,
             StopRecording] @ bufferTicks 0 6000 14) (init True)) = None
   \<and> submittedTexts
      (run ([StartRecording, OnTranscript (js ''hello'') False 1000, SilenceCheck 6000,
             StopRecording] @ bufferTicks 0 6000 14) (init True)) = [js ''hello'']
   \<and> snapshots
      (run ([StartRecording, OnTranscript (js ''hello'') False 1000, SilenceCheck 6000,
             StopRecording] @ bufferTicks 0 6000 14) (init True)) = [js ''hello'']
   \<and> submittedTexts
      (step (BufferCheck 0 7500)
        (run ([StartRecording, OnTranscript (js ''hello'') False 1000, SilenceCheck 6000,
               StopRecording] @ bufferTicks 0 6000 14) (init True)))
       = [js ''hello'', js ''hello'']"
  by (simp add: session_defs string_defs Let_def submittedTexts_def snapshots_def
      bufferTicks_numeral)

text \<open>
  Claim C6, amended. No empty or all-whitespace text is ever finalized: in every run
  of a session, every completion started carries a user text that is not empty and is
  its own trim, and so is every transcript that a buffer interval keeps. The forced
  path (\<open>finalizeTranscript\<close>) submits only when the pending transcript is not blank,
  and submits its trim. The silence path starts the buffer interval only when the
  pending transcript is not blank, and keeps its trim; at the end of the interval
  (\<open>checkForFinalTranscript\<close>) it submits the trim of the pending transcript when that
  is not blank, and the kept transcript otherwise, also when the pending transcript
  has become null in between.
\<close>

theorem finalized_text_never_blank:
  "(\<forall>st \<in> set (llmStreams (run es (init key))).
      userText st \<noteq> [] \<and> trim (userText st) = userText st)
   \<and> (\<forall>b \<in> set (bufferTimers (run es (init key))).
      transcriptAtSilence b \<noteq> [] \<and> trim (transcriptAtSilence b) = transcriptAtSilence b)
   \<and> (submittedTexts (finalizeTranscript s) \<noteq> submittedTexts s \<longrightarrow>
        (case pendingTranscript s of
           None \<Rightarrow> False
         | Some p \<Rightarrow> trim p \<noteq> []
                     \<and> submittedTexts (finalizeTranscript s) = submittedTexts s @ [trim p]))
   \<and> (bufferTimers (silenceCheck now s) \<noteq> bufferTimers s \<longrightarrow>
        (case pendingTranscript s of
           None \<Rightarrow> False
         | Some p \<Rightarrow> trim p \<noteq> []
                     \<and> map transcriptAtSilence (bufferTimers (silenceCheck now s))
                         = map transcriptAtSilence (bufferTimers s) @ [trim p]))
   \<and> (submittedTexts (checkForFinalTranscript atSilence s) \<noteq> submittedTexts s \<longrightarrow>
        submittedTexts (checkForFinalTranscript atSilence s)
          = submittedTexts s @
              [case pendingTranscript s of
                 None \<Rightarrow> trim atSilence
               | Some p \<Rightarrow> if trim p \<noteq> [] then trim p else trim atSilence])"
  using started_text_never_blank kept_text_never_blank finalizeTranscript_guard
    silenceCheck_guard checkForFinalTranscript_guard
  by (intro conjI)

text \<open>
  The theorem on a recording that hears white space, then "  hello ", falls silent
  and lets the buffer interval run out: the white space is not even accumulated,
  "hello" is kept when the silence is detected, and "hello" is the turn submitted.
\<close>

theorem finalized_text_never_blank_witness:
  "map userText (llmStreams
      (run ([StartRecording, OnTranscript (js ''   '') False 500,
             OnTranscript (js ''  hello '') False 1000, SilenceCheck 6000]
            @ bufferTicks 0 6000 15) (init True))) = [js ''hello'']
   \<and> map transcriptAtSilence (bufferTimers
      (run ([StartRecording, OnTranscript (js ''   '') False 500,
             OnTranscript (js ''  hello '') False 1000, SilenceCheck 6000]
            @ bufferTicks 0 6000 15) (init True))) = [js ''hello'']
   \<and> js ''hello'' \<noteq> [] \<and> trim (js ''hello'') = js ''hello''"
proof -
  define tr where "tr = [StartRecording, OnTranscript (js ''   '') False 500,
       OnTranscript (js ''  hello '') False 1000, SilenceCheck 6000] @ bufferTicks 0 6000 15"
  have e: "map userText (llmStreams (run tr (init True))) = [js ''hello'']"
    unfolding tr_def by (simp add: session_defs string_defs Let_def bufferTicks_numeral)
  have k: "map transcriptAtSilence (bufferTimers (run tr (init True))) = [js ''hello'']"
    unfolding tr_def by (simp add: session_defs string_defs Let_def bufferTicks_numeral)
  from finalized_text_never_blank[of tr True]
  have "\<forall>t \<in> set (map userText (llmStreams (run tr (init True)))). t \<noteq> [] \<and> trim t = t"
    by simp
  with e have "js ''hello'' \<noteq> [] \<and> trim (js ''hello'') = js ''hello''" by simp
  with e k show ?thesis unfolding tr_def by simp
qed

section \<open>Stopping and disconnecting\<close>

text \<open>
  \<open>lastFinalizedTranscript\<close> is written by \<open>finalizeTranscript\<close> alone, which only
  \<open>stopDeepgramStream\<close> calls, and \<open>stopDeepgramStream\<close> resets it before it returns.
  So it is null between any two events, and the guard against finalizing the same
  text twice never stops a forced finalize.
\<close>

named_theorems finalized

lemma finalized_sendMessage [finalized]:
  "lastFinalizedTranscript (sendMessage m s) = lastFinalizedTranscript s"
  by (simp add: sendMessage_def)

lemma finalized_cancelInFlight [finalized]:
  "lastFinalizedTranscript (cancelInFlight s) = lastFinalizedTranscript s"
  by (simp add: cancelInFlight_def cancelLLM_def cancelTTS_def Let_def split: option.splits)

lemma finalized_llmChunk [finalized]:
  "lastFinalizedTranscript (llmChunk h d s) = lastFinalizedTranscript s"
  by (simp add: llmChunk_def onToken_def finalized)

lemma finalized_llmEnd [finalized]:
  "lastFinalizedTranscript (llmEnd h s) = lastFinalizedTranscript s"
  by (simp add: llmEnd_def)

lemma finalized_llmFail [finalized]:
  "lastFinalizedTranscript (llmFail h a s) = lastFinalizedTranscript s"
  by (simp add: llmFail_def)

lemma finalized_saveDone [finalized]:
  "lastFinalizedTranscript (saveDone h s) = lastFinalizedTranscript s"
  by (simp add: saveDone_def createTTSStream_def Let_def finalized split: phase.splits origin.splits)

lemma finalized_ttsTimeout [finalized]:
  "lastFinalizedTranscript (ttsTimeout h s) = lastFinalizedTranscript s"
  by (simp add: ttsTimeout_def Let_def finalized)

lemma finalized_createOpenAIStream [finalized]:
  "lastFinalizedTranscript (fst (createOpenAIStream org t s)) = lastFinalizedTranscript s"
  by (simp add: createOpenAIStream_def Let_def finalized)

lemma finalized_processUserMessage [finalized]:
  "lastFinalizedTranscript (processUserMessage u c s) = lastFinalizedTranscript s"
  by (simp add: processUserMessage_def Let_def split_beta finalized)

lemma finalized_transcriptUpdate [finalized]:
  "lastFinalizedTranscript (transcriptUpdate f n s) = lastFinalizedTranscript s"
  by (simp add: transcriptUpdate_def Let_def finalized split: option.splits)

lemma finalized_onTranscript [finalized]:
  "lastFinalizedTranscript (onTranscript t f n s) = lastFinalizedTranscript s"
  by (simp add: onTranscript_def Let_def finalized)

lemma finalized_checkForFinalTranscript [finalized]:
  "lastFinalizedTranscript (checkForFinalTranscript a s) = lastFinalizedTranscript s"
  by (simp add: checkForFinalTranscript_def Let_def finalized)

lemma finalized_silenceCheck [finalized]:
  "lastFinalizedTranscript (silenceCheck n s) = lastFinalizedTranscript s"
  by (simp add: silenceCheck_def Let_def split: option.splits)

lemma finalized_bufferCheck [finalized]:
  "lastFinalizedTranscript (bufferCheck i n s) = lastFinalizedTranscript s"
  by (simp add: bufferCheck_def Let_def finalized split: option.splits)

lemma finalized_onInterrupt [finalized]:
  "lastFinalizedTranscript (onInterrupt s) = lastFinalizedTranscript s"
  by (simp add: onInterrupt_def cancelLLM_def cancelTTS_def Let_def finalized split: option.splits)

lemma finalized_onClose [finalized]:
  "lastFinalizedTranscript (onClose s) = lastFinalizedTranscript s"
  by (simp add: onClose_def clearSilenceDetection_def cancelLLM_def cancelTTS_def Let_def split: option.splits)

lemma finalized_startDeepgramStream:
  "lastFinalizedTranscript s = None \<Longrightarrow> lastFinalizedTranscript (startDeepgramStream s) = None"
  by (simp add: startDeepgramStream_def startSilenceDetection_def clearSilenceDetection_def Let_def)

lemma finalized_stopDeepgramStream: "lastFinalizedTranscript (stopDeepgramStream s) = None"
  by (simp add: stopDeepgramStream_def Let_def)

lemma finalized_step:
  "lastFinalizedTranscript s = None \<Longrightarrow> lastFinalizedTranscript (step e s) = None"
  by (cases e)
    (simp_all add: finalized finalized_startDeepgramStream finalized_stopDeepgramStream
      resetSilenceTimer_def split: option.splits)

lemma finalized_run:
  "lastFinalizedTranscript s = None \<Longrightarrow> lastFinalizedTranscript (run es s) = None"
  by (induction es arbitrary: s) (simp_all add: finalized_step)

lemma finalized_reachable: "lastFinalizedTranscript (run es (init key)) = None"
  by (rule finalized_run) (simp add: init_def sendMessage_def)

lemma snd_createOpenAIStream: "snd (createOpenAIStream org t s) = length (llmStreams s)"
  by (simp add: createOpenAIStream_def Let_def)

lemma length_llmStreams_sendMessage:
  "length (llmStreams (sendMessage m s)) = length (llmStreams s)"
  by (simp add: sendMessage_def)

lemma length_llmStreams_cancelInFlight:
  "length (llmStreams (cancelInFlight s)) = length (llmStreams s)"
  by (simp add: cancelInFlight_def cancelLLM_def cancelTTS_def mapAt_def Let_def
      split: option.splits)

lemma finalizeTranscript_submits:
  assumes "pendingTranscript s = Some p" "trim p \<noteq> []" "lastFinalizedTranscript s = None"
  shows "submittedTexts (finalizeTranscript s) = submittedTexts s @ [trim p]"
  using assms by (simp add: submittedTexts_finalizeTranscript)

lemma finalizeTranscript_handle:
  assumes "pendingTranscript s = Some p" "trim p \<noteq> []" "lastFinalizedTranscript s = None"
  shows "currentLLMStream (finalizeTranscript s) = Some (length (llmStreams s))"
proof -
  from assms(2) have pne: "p \<noteq> []" by (auto simp: trim_Nil)
  show ?thesis
    using assms pne
    by (simp add: finalizeTranscript_def Let_def split_beta snd_createOpenAIStream
        length_llmStreams_sendMessage length_llmStreams_cancelInFlight)
qed

text \<open>
  Claim C7, as stated, fails for the disconnect: the handler of \<open>close\<close> clears the
  silence check and cancels the streams, and finalizes nothing. Here a recording has
  heard "hello" and the socket closes: no completion is started, the history stays
  empty, and the transcript is still pending.
\<close>

theorem close_forces_no_finalize:
  "pendingTranscript (run [StartRecording, OnTranscript (js ''hello'') False 1000] (init True))
     = Some (js ''hello'')
   \<and> trim (js ''hello'') \<noteq> []
   \<and> llmStreams (step SocketClose
        (run [StartRecording, OnTranscript (js ''hello'') False 1000] (init True))) = []
   \<and> conversationHistory (step SocketClose
        (run [StartRecording, OnTranscript (js ''hello'') False 1000] (init True))) = []
   \<and> pendingTranscript (step SocketClose
        (run [StartRecording, OnTranscript (js ''hello'') False 1000] (init True)))
       = Some (js ''hello'')"
  by (simp add: session_defs string_defs Let_def)

text \<open>
  Claim C7, amended. Take any state a session can reach in which the pending
  transcript is not blank, and let the variables of the buffering stages have any
  values at all: the time of the last transcript (silence threshold), the flag of the
  final hint, the flag of a pending finalize, and the buffer intervals with their
  elapsed time (buffer timeout). \<open>stop_recording\<close> then finalizes the transcript
  within its own handling: a completion for the trimmed transcript is started and
  becomes the current one, and the pending transcript is cleared. The event \<open>close\<close>
  forces no finalize: it submits nothing and leaves the history and the pending
  transcript as they are.
\<close>

theorem stop_forces_finalize:
  assumes "pendingTranscript (run es (init key)) = Some p" and "trim p \<noteq> []"
  shows "submittedTexts (step StopRecording
            ((run es (init key))\<lparr>lastTranscriptTime := t, llmCallPending := f,
                                  receivedFinalTranscript := g, bufferTimers := bs\<rparr>))
           = submittedTexts (run es (init key)) @ [trim p]
       \<and> currentLLMStream (step StopRecording
            ((run es (init key))\<lparr>lastTranscriptTime := t, llmCallPending := f,
                                  receivedFinalTranscript := g, bufferTimers := bs\<rparr>))
           = Some (length (llmStreams (run es (init key))))
       \<and> pendingTranscript (step StopRecording
            ((run es (init key))\<lparr>lastTranscriptTime := t, llmCallPending := f,
                                  receivedFinalTranscript := g, bufferTimers := bs\<rparr>))
           = None
       \<and> submittedTexts (step SocketClose (run es (init key)))
           = submittedTexts (run es (init key))
       \<and> conversationHistory (step SocketClose (run es (init key)))
           = conversationHistory (run es (init key))
       \<and> pendingTranscript (step SocketClose (run es (init key))) = Some p"
proof -
  define s where "s = run es (init key)"
  define r where "r = s\<lparr>lastTranscriptTime := t, llmCallPending := f,
                         receivedFinalTranscript := g, bufferTimers := bs,
                         isRecording := False\<rparr>"
  from assms(2) have pne: "p \<noteq> []" by (auto simp: trim_Nil)
  have p: "pendingTranscript r = Some p" using assms(1) by (simp add: r_def s_def)
  have l: "lastFinalizedTranscript r = None"
    using finalized_reachable by (simp add: r_def s_def)
  have rs: "submittedTexts r = submittedTexts s" and rl: "llmStreams r = llmStreams s"
    by (simp_all add: r_def)
  have t: "submittedTexts (stopDeepgramStream r) = submittedTexts (finalizeTranscript r)"
    using p assms(2) pne
    by (simp add: stopDeepgramStream_def clearSilenceDetection_def Let_def)
  have c: "currentLLMStream (stopDeepgramStream r) = currentLLMStream (finalizeTranscript r)"
    using p assms(2) pne
    by (simp add: stopDeepgramStream_def clearSilenceDetection_def Let_def)
  have n: "pendingTranscript (stopDeepgramStream r) = None"
    by (simp add: stopDeepgramStream_def Let_def)
  have st: "step StopRecording (s\<lparr>lastTranscriptTime := t, llmCallPending := f,
                                  receivedFinalTranscript := g, bufferTimers := bs\<rparr>)
              = sendMessage (Status Idle None) (stopDeepgramStream r)"
    by (simp add: r_def)
  have 1: "submittedTexts (sendMessage (Status Idle None) (stopDeepgramStream r))
             = submittedTexts s @ [trim p]"
    using finalizeTranscript_submits[OF p assms(2) l] t rs by (simp add: frame)
  have 2: "currentLLMStream (sendMessage (Status Idle None) (stopDeepgramStream r))
             = Some (length (llmStreams s))"
    using finalizeTranscript_handle[OF p assms(2) l] c rl by (simp add: sendMessage_def)
  have 3: "pendingTranscript (sendMessage (Status Idle None) (stopDeepgramStream r)) = None"
    using n by (simp add: sendMessage_def)
  have 4: "submittedTexts (step SocketClose s) = submittedTexts s" by (simp add: frame)
  have 5: "conversationHistory (step SocketClose s) = conversationHistory s"
    by (simp add: onClose_def clearSilenceDetection_def cancelLLM_def cancelTTS_def Let_def
        split: option.splits)
  have 6: "pendingTranscript (step SocketClose s) = Some p"
    using assms(1) by (simp add: pending s_def)
  from 1 2 3 4 5 6 show ?thesis unfolding s_def[symmetric] st by (intro conjI)
qed

text \<open>
  The theorem on a recording that heard "hello" five seconds ago, so that the silence
  check has just started the buffer interval: the interval has not ticked once, and
  \<open>stop_recording\<close> submits "hello" at once.
\<close>

theorem stop_forces_finalize_witness:
  "pendingTranscript
      (run [StartRecording, OnTranscript (js ''hello'') False 1000, SilenceCheck 6000]
         (init True)) = Some (js ''hello'')
   \<and> trim (js ''hello'') \<noteq> []
   \<and> map armed (bufferTimers
        (run [StartRecording, OnTranscript (js ''hello'') False 1000, SilenceCheck 6000]
           (init True))) = [True]
   \<and> map bufferElapsed (bufferTimers
        (run [StartRecording, OnTranscript (js ''hello'') False 1000, SilenceCheck 6000]
           (init True))) = [0]
   \<and> submittedTexts (step StopRecording
        (run [StartRecording, OnTranscript (js ''hello'') False 1000, SilenceCheck 6000]
           (init True))) = [js ''hello'']
   \<and> pendingTranscript (step StopRecording
        (run [StartRecording, OnTranscript (js ''hello'') False 1000, SilenceCheck 6000]
           (init True))) = None"
proof -
  define s0 where "s0 = run [StartRecording, OnTranscript (js ''hello'') False 1000,
                             SilenceCheck 6000] (init True)"
  have a: "pendingTranscript s0 = Some (js ''hello'')"
    unfolding s0_def by (simp add: session_defs string_defs Let_def)
  have b: "trim (js ''hello'') \<noteq> []"
    by (simp add: string_defs)
  have c: "map armed (bufferTimers s0) = [True]"
    and c': "map bufferElapsed (bufferTimers s0) = [0]"
    unfolding s0_def by (simp_all add: session_defs string_defs Let_def)
  have d: "submittedTexts s0 = []"
    unfolding s0_def by (simp add: session_defs string_defs Let_def submittedTexts_def)
  have e: "trim (js ''hello'') = js ''hello''"
    by (simp add: string_defs)
  have same: "s0\<lparr>lastTranscriptTime := lastTranscriptTime s0,
                 llmCallPending := llmCallPending s0,
                 receivedFinalTranscript := receivedFinalTranscript s0,
                 bufferTimers := bufferTimers s0\<rparr> = s0"
    by simp
  from stop_forces_finalize[OF a[unfolded s0_def] b,
      where t = "lastTranscriptTime s0" and f = "llmCallPending s0"
        and g = "receivedFinalTranscript s0" and bs = "bufferTimers s0"]
  have "submittedTexts (step StopRecording s0) = [js ''hello'']"
    and "pendingTranscript (step StopRecording s0) = None"
    unfolding s0_def[symmetric] same by (simp_all only: d e append_Nil)
  with a b c c' show ?thesis unfolding s0_def by blast
qed

section \<open>Runs in which the code departs from the specification\<close>

text \<open>
  Claim C1 (the code departs from it). The model answers with the booking object and
  nothing else, in one chunk. \<open>onToken\<close> sends the chunk as an \<open>agent_text\<close> token; no
  placeholder is sent, and the handlers of the stream hand nothing to a booking
  collaborator: the session has no such effect at all.
\<close>

theorem booking_json_is_streamed:
  \<open>hd (trim bookingJson) = 123
   \<and> includesStr bookingJson (js ''"action":"book_appointment"'')
   \<and> sent (run [ChatMessage (Some (js ''Yes, book it'')), LlmChunk 0 bookingJson, LlmEnd 0,
                 SaveDone 0] (init True))
       = [Status Connected None, Status Thinking None, AgentText [] True,
          AgentText bookingJson False,
          ConversationTurn Chat (js ''Yes, book it'') bookingJson, Status Idle None]\<close>
  by (simp add: session_defs string_defs bookingJson_def Let_def)

text \<open>
  Claim C2 (the code departs from it). A recording hears "hello"; five seconds later
  the silence check starts the buffer interval; then the socket closes.
  \<open>clearSilenceDetection\<close> stops the silence check, and the buffer interval, which no
  variable of the session holds, stays armed. Its fifteenth tick after the close
  finalizes "hello" and starts a completion that nothing will ever cancel. No frame
  is sent after the close.
\<close>

theorem buffer_timer_survives_close:
  "map armed (bufferTimers
      (run [StartRecording, OnTranscript (js ''hello'') False 1000, SilenceCheck 6000,
            SocketClose] (init True))) = [True]
   \<and> \<not> silenceCheckInterval
      (run [StartRecording, OnTranscript (js ''hello'') False 1000, SilenceCheck 6000,
            SocketClose] (init True))
   \<and> llmStreams
      (run [StartRecording, OnTranscript (js ''hello'') False 1000, SilenceCheck 6000,
            SocketClose] (init True)) = []
   \<and> submittedTexts
      (run ([StartRecording, OnTranscript (js ''hello'') False 1000, SilenceCheck 6000,
             SocketClose] @ map (\<lambda>k. BufferCheck 0 (6000 + 100 * int k)) [1 ..< 16])
        (init True)) = [js ''hello'']
   \<and> activeCompletions
      (run ([StartRecording, OnTranscript (js ''hello'') False 1000, SilenceCheck 6000,
             SocketClose] @ map (\<lambda>k. BufferCheck 0 (6000 + 100 * int k)) [1 ..< 16])
        (init True)) = [0]"
  by (simp add: session_defs string_defs Let_def submittedTexts_def activeCompletions_def
      upt_rec)

text \<open>
  Claim C4 (the code departs from it). \<open>onComplete\<close> of \<open>processUserMessage\<close> sets
  \<open>currentLLMStream\<close> to null after it has awaited the saving of the turn. When a
  second message is submitted during that wait, the assignment forgets the handle of
  the second completion; a third message then finds no handle to cancel, and the
  second and the third completion stream at the same time.
\<close>

theorem two_completions_active:
  "activeCompletions
      (run [ChatMessage (Some (js ''a'')), LlmEnd 0, ChatMessage (Some (js ''b'')),
            SaveDone 0, ChatMessage (Some (js ''c''))] (init True)) = [1, 2]
   \<and> currentLLMStream
      (run [ChatMessage (Some (js ''a'')), LlmEnd 0, ChatMessage (Some (js ''b'')),
            SaveDone 0] (init True)) = None"
  by (simp add: session_defs string_defs Let_def activeCompletions_def upt_rec)

text \<open>
  Claim C5 (the code departs from it). The first completion has ended and its
  \<open>onComplete\<close> awaits the saving of the turn; a second message starts a second
  completion, which streams "Hel"; the first \<open>onComplete\<close> resumes and sets
  \<open>currentLLMStream\<close> to null. The interrupt that follows finds no handle: it aborts
  nothing, reports the state interrupted, and the next token of the second completion
  is sent to the client all the same.
\<close>

theorem interrupt_misses_completion:
  "sent (run [ChatMessage (Some (js ''a'')), LlmChunk 0 (js ''A1''), LlmEnd 0,
              ChatMessage (Some (js ''b'')), LlmChunk 1 (js ''Hel''), SaveDone 0, Interrupt,
              LlmChunk 1 (js ''lo'')] (init True))
     = [Status Connected None, Status Thinking None, AgentText [] True,
        AgentText (js ''A1'') False, Status Thinking None, AgentText [] True,
        AgentText (js ''Hel'') False, ConversationTurn Chat (js ''a'') (js ''A1''),
        Status Idle None, Status Interrupted None, AgentText (js ''lo'') False]
   \<and> map aborted (llmStreams
        (run [ChatMessage (Some (js ''a'')), LlmChunk 0 (js ''A1''), LlmEnd 0,
              ChatMessage (Some (js ''b'')), LlmChunk 1 (js ''Hel''), SaveDone 0, Interrupt]
           (init True))) = [True, False]
   \<and> activeCompletions
        (run [ChatMessage (Some (js ''a'')), LlmChunk 0 (js ''A1''), LlmEnd 0,
              ChatMessage (Some (js ''b'')), LlmChunk 1 (js ''Hel''), SaveDone 0, Interrupt]
           (init True)) = [1]"
  by (simp add: session_defs string_defs Let_def activeCompletions_def upt_rec)

end
